theory Spec2Isabelle
  imports Main "HOL-Library.Char_ord" "HOL-Library.List_Lexorder" "HOL-Library.Product_Lexorder"
begin

section \<open>Hashing and the nullifier (packages/crypto, nullifier.ts)\<close>

text \<open>
  The crypto package hashes a JavaScript string with
  \<^verbatim>\<open>bytesToHex(sha256(new TextEncoder().encode(data)))\<close>. SHA-256 is an external
  primitive; every function below takes this whole pipeline as the parameter \<open>H\<close>, from the
  string \<open>data\<close> to the hex digest, so that each theorem holds for every hash function.
  Strings are lists of characters; UTF-8 encoding is injective on them and is part of
  \<open>H\<close>.
\<close>

type_synonym hash_fn = "string \<Rightarrow> string"

text \<open>
  Where a statement is evaluated at a concrete input, \<open>H\<close> is instantiated by a symbolic
  hash: an injective function that wraps its argument, the usual perfect-hash abstraction.
\<close>

definition symbolic_sha256 :: hash_fn where
  "symbolic_sha256 s = ''sha256('' @ s @ '')''"

text \<open>\<^verbatim>\<open>const data = `${pollId}:${userSecretSalt}`\<close>\<close>

definition nullifier_data :: "string \<Rightarrow> string \<Rightarrow> string" where
  "nullifier_data pollId userSecretSalt = pollId @ '':'' @ userSecretSalt"

definition generateNullifier :: "hash_fn \<Rightarrow> string \<Rightarrow> string \<Rightarrow> string" where
  "generateNullifier H pollId userSecretSalt = H (nullifier_data pollId userSecretSalt)"

definition verifyNullifier :: "hash_fn \<Rightarrow> string \<Rightarrow> string \<Rightarrow> string \<Rightarrow> bool" where
  "verifyNullifier H pollId userSecretSalt nullifier =
     (generateNullifier H pollId userSecretSalt = nullifier)"

text \<open>
  \<^verbatim>\<open>const data = previousEventHash ? `${previousEventHash}:${payloadHash}` : payloadHash\<close>.
  The test is JavaScript truthiness: \<open>null\<close> and the empty string both take the second
  branch.
\<close>

definition generateChainHash :: "hash_fn \<Rightarrow> string \<Rightarrow> string option \<Rightarrow> string" where
  "generateChainHash H payloadHash previousEventHash =
     H (case previousEventHash of
          None \<Rightarrow> payloadHash
        | Some p \<Rightarrow> if p = [] then payloadHash else p @ '':'' @ payloadHash)"

section \<open>JSON values and JSON.stringify\<close>

text \<open>
  A payload is a JavaScript value built from JSON. Numbers are restricted to integers
  (printed in decimal, as JavaScript prints every integer of magnitude below 10^21); an
  object is the list of its properties in insertion order, with distinct keys that are
  not array indices, so that JavaScript enumerates them in this order.
\<close>

datatype json =
    JNull
  | JBool bool
  | JNum int
  | JStr string
  | JArr "json list"
  | JObj "(string \<times> json) list"

fun nat_digits :: "nat \<Rightarrow> string" where
  "nat_digits n =
     (if n < 10 then [''0123456789'' ! n]
      else nat_digits (n div 10) @ [''0123456789'' ! (n mod 10)])"

declare nat_digits.simps [simp del]

definition int_digits :: "int \<Rightarrow> string" where
  "int_digits n = (if n < 0 then CHR ''-'' # nat_digits (nat (- n)) else nat_digits (nat n))"

text \<open>
  QuoteJSONString: the quotation mark and the backslash are escaped, the control
  characters below 0x20 are written with their short escape or as a four-digit hex escape.
\<close>

definition quote_char :: "char \<Rightarrow> string" where
  "quote_char c =
     (if c = CHR 0x22 then [CHR 0x5C, CHR 0x22]
      else if c = CHR 0x5C then [CHR 0x5C, CHR 0x5C]
      else if c = CHR 0x08 then [CHR 0x5C, CHR ''b'']
      else if c = CHR 0x0C then [CHR 0x5C, CHR ''f'']
      else if c = CHR 0x0A then [CHR 0x5C, CHR ''n'']
      else if c = CHR 0x0D then [CHR 0x5C, CHR ''r'']
      else if c = CHR 0x09 then [CHR 0x5C, CHR ''t'']
      else if (of_char c :: nat) < 32 then
        [CHR 0x5C, CHR ''u'', CHR ''0'', CHR ''0'',
         ''0123456789abcdef'' ! ((of_char c :: nat) div 16),
         ''0123456789abcdef'' ! ((of_char c :: nat) mod 16)]
      else [c])"

definition json_quote :: "string \<Rightarrow> string" where
  "json_quote s = CHR 0x22 # concat (map quote_char s) @ [CHR 0x22]"

fun join_commas :: "string list \<Rightarrow> string" where
  "join_commas [] = []"
| "join_commas [x] = x"
| "join_commas (x # y # ys) = x @ '','' @ join_commas (y # ys)"

text \<open>
  SerializeJSONObject. Without a replacer the properties are written in the object's own
  order. With a replacer array (the property list \<open>K\<close>) the names of \<open>K\<close> are looked up
  in the object, in the order of \<open>K\<close>, and a name the object does not have is skipped;
  the same list applies to every nested object. The argument \<open>rendered\<close> holds the
  properties with their values already serialised.
\<close>

definition members :: "string list option \<Rightarrow> (string \<times> string) list \<Rightarrow> string list" where
  "members K rendered =
     (case K of
        None \<Rightarrow> map (\<lambda>(k, s). json_quote k @ '':'' @ s) rendered
      | Some ks \<Rightarrow>
          List.map_filter
            (\<lambda>k. case map_of rendered k of
                   None \<Rightarrow> None
                 | Some s \<Rightarrow> Some (json_quote k @ '':'' @ s)) ks)"

primrec stringify_with :: "string list option \<Rightarrow> json \<Rightarrow> string" where
  "stringify_with K JNull = ''null''"
| "stringify_with K (JBool b) = (if b then ''true'' else ''false'')"
| "stringify_with K (JNum n) = int_digits n"
| "stringify_with K (JStr s) = json_quote s"
| "stringify_with K (JArr xs) = ''['' @ join_commas (map (stringify_with K) xs) @ '']''"
| "stringify_with K (JObj kvs) =
     ''{'' @ join_commas (members K (map (map_prod id (stringify_with K)) kvs)) @ ''}''"

text \<open>\<^verbatim>\<open>JSON.stringify(data)\<close>\<close>

definition JSON_stringify :: "json \<Rightarrow> string" where
  "JSON_stringify data = stringify_with None data"

text \<open>
  generateHash (crypto package):
  \<^verbatim>\<open>const jsonString = typeof data === 'string' ? data : JSON.stringify(data)\<close>
\<close>

definition generateHash :: "hash_fn \<Rightarrow> json \<Rightarrow> string" where
  "generateHash H data = H (case data of JStr s \<Rightarrow> s | _ \<Rightarrow> JSON_stringify data)"

text \<open>
  computePayloadHash (audit-verifier CLI):
  \<^verbatim>\<open>JSON.stringify(payload, Object.keys(payload).sort())\<close>.
  The payload of an audit event is an object (\<^verbatim>\<open>Record<string, any>\<close>), given by its
  property list; the default sort orders strings by their code units.
\<close>

definition Object_keys :: "(string \<times> json) list \<Rightarrow> string list" where
  "Object_keys payload = map fst payload"

definition computePayloadHash :: "hash_fn \<Rightarrow> (string \<times> json) list \<Rightarrow> string" where
  "computePayloadHash H payload =
     H (stringify_with (Some (sort (Object_keys payload))) (JObj payload))"


section \<open>Audit events and the two chain verifiers\<close>

text \<open>
  A row of \<^verbatim>\<open>audit_events\<close> (001_initial_schema.sql). The crypto package's verifier
  reads only the two hash columns, so they form the base record and the full event extends
  it. The exported bundle renames the columns to camel case (payloadHash,
  previousEventHash); the model keeps one name for both.
\<close>

record chain_row =
  payload_hash :: string
  previous_event_hash :: "string option"

record audit_event = chain_row +
  event_id :: string
  event_tenant_id :: string
  event_type :: string
  entity_type :: string
  entity_id :: string
  payload :: "(string \<times> json) list"
  event_created_at :: nat

text \<open>
  verifyHashChain of the crypto package (behind GET /api/audit/verify and the bundle's
  chainValid): the loop over \<open>i\<close> returns false at the first event that fails.
\<close>

function verifyHashChain_loop :: "hash_fn \<Rightarrow> 'a chain_row_scheme list \<Rightarrow> nat \<Rightarrow> bool" where
  "verifyHashChain_loop H events i =
     (if i < length events then
        (if i = 0 then
           (if previous_event_hash (events ! i) \<noteq> None then False
            else verifyHashChain_loop H events (i + 1))
         else
           (if previous_event_hash (events ! i) \<noteq>
                 Some (generateChainHash H (payload_hash (events ! (i - 1)))
                         (previous_event_hash (events ! (i - 1))))
            then False
            else verifyHashChain_loop H events (i + 1)))
      else True)"
  by pat_completeness auto
termination
  by (relation "measure (\<lambda>(H, events, i). length events - i)") auto

declare verifyHashChain_loop.simps [simp del]

definition verifyHashChain :: "hash_fn \<Rightarrow> 'a chain_row_scheme list \<Rightarrow> bool" where
  "verifyHashChain H events = verifyHashChain_loop H events 0"

text \<open>
  The standalone verifier (tools/audit-verifier.ts). Its error messages are strings that
  interpolate the index, the event id and the hashes involved; each message is modelled by
  a constructor carrying the interpolated values.
\<close>

datatype cli_error =
    FirstEventNotNull string
  | PayloadHashMismatch nat string string string
  | ChainBreak nat string "string option" string

record cli_stats =
  totalEvents :: nat
  validHashes :: nat
  validLinks :: nat

record cli_result =
  valid :: bool
  errors :: "cli_error list"
  warnings :: "string list"
  stats :: cli_stats

definition verifyEventHash :: "hash_fn \<Rightarrow> audit_event \<Rightarrow> bool \<times> string" where
  "verifyEventHash H event =
     (let computedHash = computePayloadHash H (payload event)
      in (computedHash = payload_hash event, computedHash))"

text \<open>
  One iteration of the loop body: the payload-hash check, then (for \<open>i > 0\<close>) the link
  check, which compares the event's previousEventHash with the previous event's
  payloadHash. The state is (errors, validHashes, validLinks).
\<close>

definition cli_check_event ::
  "hash_fn \<Rightarrow> audit_event list \<Rightarrow> nat \<Rightarrow> cli_error list \<times> nat \<times> nat
     \<Rightarrow> cli_error list \<times> nat \<times> nat" where
  "cli_check_event H events i st =
     (case st of (errs, vh, vl) \<Rightarrow>
        let event = events ! i;
            hashCheck = verifyEventHash H event;
            errs1 = (if fst hashCheck then errs
                     else errs @ [PayloadHashMismatch i (event_id event) (payload_hash event)
                                    (snd hashCheck)]);
            vh1 = (if fst hashCheck then vh + 1 else vh)
        in if i > 0 then
             (let previousEvent = events ! (i - 1)
              in if previous_event_hash event = Some (payload_hash previousEvent)
                 then (errs1, vh1, vl + 1)
                 else (errs1 @ [ChainBreak i (event_id event) (previous_event_hash event)
                                  (payload_hash previousEvent)], vh1, vl))
           else (errs1, vh1, vl))"

function cli_loop ::
  "hash_fn \<Rightarrow> audit_event list \<Rightarrow> nat \<Rightarrow> cli_error list \<times> nat \<times> nat
     \<Rightarrow> cli_error list \<times> nat \<times> nat" where
  "cli_loop H events i st =
     (if i < length events then cli_loop H events (i + 1) (cli_check_event H events i st)
      else st)"
  by pat_completeness auto
termination
  by (relation "measure (\<lambda>(H, events, i, st). length events - i)") auto

declare cli_loop.simps [simp del]

definition cli_verifyHashChain :: "hash_fn \<Rightarrow> audit_event list \<Rightarrow> cli_result" where
  "cli_verifyHashChain H events =
     (if length events = 0 then
        \<lparr>valid = True, errors = [], warnings = [''No events to verify''],
         stats = \<lparr>totalEvents = 0, validHashes = 0, validLinks = 0\<rparr>\<rparr>
      else
        let errs0 = (if previous_event_hash (events ! 0) \<noteq> None
                     then [FirstEventNotNull (event_id (events ! 0))] else []);
            res = cli_loop H events 0 (errs0, 0, 0)
        in case res of (errs, vh, vl) \<Rightarrow>
             \<lparr>valid = (length errs = 0), errors = errs, warnings = [],
              stats = \<lparr>totalEvents = length events, validHashes = vh,
                       validLinks = length events - 1\<rparr>\<rparr>)"


text \<open>
  The link rule as the specification words it (section 4.5): event 0 is valid iff its
  previous-event hash is absent; event \<open>i > 0\<close> is valid iff its previous-event hash equals
  the chain hash of event \<open>i - 1\<close>.
\<close>

definition spec_link_valid :: "hash_fn \<Rightarrow> 'a chain_row_scheme list \<Rightarrow> nat \<Rightarrow> bool" where
  "spec_link_valid H events i =
     (if i = 0 then previous_event_hash (events ! 0) = None
      else previous_event_hash (events ! i) =
             Some (generateChainHash H (payload_hash (events ! (i - 1)))
                     (previous_event_hash (events ! (i - 1)))))"


text \<open>
  The errors that iteration \<open>i\<close> of the standalone verifier's loop appends, read off
  \<open>cli_check_event\<close>.
\<close>

definition cli_event_errors :: "hash_fn \<Rightarrow> audit_event list \<Rightarrow> nat \<Rightarrow> cli_error list" where
  "cli_event_errors H events i =
     (if computePayloadHash H (payload (events ! i)) = payload_hash (events ! i) then []
      else [PayloadHashMismatch i (event_id (events ! i)) (payload_hash (events ! i))
              (computePayloadHash H (payload (events ! i)))]) @
     (if i > 0 \<and> previous_event_hash (events ! i) \<noteq> Some (payload_hash (events ! (i - 1)))
      then [ChainBreak i (event_id (events ! i)) (previous_event_hash (events ! i))
              (payload_hash (events ! (i - 1)))]
      else [])"


section \<open>The database: tables, constraints, errors\<close>

text \<open>
  The tables of 001_initial_schema.sql and 002_multi_stage_consultations.sql, with the
  columns that the modelled routes read or write; a table is the list of its rows in
  insertion order. Timestamps are natural numbers. An id that the source takes from
  \<^verbatim>\<open>uuid_generate_v4()\<close> or \<^verbatim>\<open>uuidv4()\<close> is an argument \<open>newId\<close> of the operation.
\<close>

datatype poll_status = draft | active | closed

record poll_option =
  option_id :: string
  option_text :: string

record poll_row =
  poll_id :: string
  poll_tenant_id :: string
  creator_id :: string
  status :: poll_status
  start_time :: "nat option"
  end_time :: "nat option"
  options :: "poll_option list"

datatype db_user_role = citizen | elected_official | administration

record user_row =
  user_id :: string
  role :: db_user_role
  secret_salt :: string

record vote_row =
  vote_id :: string
  vote_poll_id :: string
  vote_nullifier :: string
  vote_option_id :: string
  vote_timestamp :: nat
  previous_vote_id :: "string option"

record comment_row =
  comment_id :: string
  comment_poll_id :: string
  is_hidden :: bool

datatype consultation_stage = idea_collection | shortlist_selection | final_arbitration

datatype idea_status = submitted | shortlisted | rejected | winner

record idea_row =
  idea_id :: string
  idea_poll_id :: string
  submitter_id :: string
  title :: string
  upvotes :: int
  downvotes :: int
  idea_status :: idea_status
  idea_created_at :: nat

datatype vote_type = upvote | downvote

record idea_vote_row =
  idea_vote_id :: string
  iv_idea_id :: string
  iv_user_id :: string
  iv_vote_type :: vote_type

record stage_row =
  stage_poll_id :: string
  current_stage :: consultation_stage
  min_ideas_for_stage_2 :: nat
  shortlist_size :: nat

record db =
  tenants :: "string list"
  polls :: "poll_row list"
  users :: "user_row list"
  votes :: "vote_row list"
  comments :: "comment_row list"
  audit_events :: "audit_event list"
  consultation_stages :: "stage_row list"
  consultation_ideas :: "idea_row list"
  consultation_idea_votes :: "idea_vote_row list"

text \<open>
  A failed statement raises; the route's \<^verbatim>\<open>catch\<close> passes the error on. The routes'
  own errors (utils/errors.ts) carry their message. A database error carries the name of
  the constraint or of the column that the statement violates: unique_violation (23505),
  foreign_key_violation (23503), undefined_column (42703), not_null_violation (23502),
  datatype_mismatch (42804).
\<close>

datatype db_error =
    UniqueViolation string
  | ForeignKeyViolation string
  | UndefinedColumn string
  | NotNullViolation string
  | DatatypeMismatch string

datatype error =
    NotFoundError string
  | BadRequestError string
  | ForbiddenError string
  | DatabaseError db_error
  | TypeError

section \<open>The vote ledger (routes/votes.ts)\<close>

text \<open>
  \<^verbatim>\<open>INSERT INTO votes (poll_id, nullifier, option_id [, previous_vote_id])\<close>
  under the table's constraints: the primary key, \<^verbatim>\<open>UNIQUE(poll_id, nullifier)\<close>, which
  is not deferrable and so is checked when the row is inserted, and the two foreign keys.
\<close>

definition db_insert_vote ::
  "string \<Rightarrow> nat \<Rightarrow> string \<Rightarrow> string \<Rightarrow> string \<Rightarrow> string option \<Rightarrow> db
     \<Rightarrow> db_error + (vote_row \<times> db)" where
  "db_insert_vote newId now pollId nullif optionId prev s =
     (if \<exists>v \<in> set (votes s). vote_id v = newId then Inl (UniqueViolation ''votes_pkey'')
      else if \<exists>v \<in> set (votes s). vote_poll_id v = pollId \<and> vote_nullifier v = nullif
        then Inl (UniqueViolation ''votes_poll_id_nullifier_key'')
      else if \<not> (\<exists>p \<in> set (polls s). poll_id p = pollId)
        then Inl (ForeignKeyViolation ''votes_poll_id_fkey'')
      else if (case prev of None \<Rightarrow> False
               | Some pv \<Rightarrow> \<not> (\<exists>v \<in> set (votes s). vote_id v = pv))
        then Inl (ForeignKeyViolation ''votes_previous_vote_id_fkey'')
      else
        let row = \<lparr>vote_id = newId, vote_poll_id = pollId, vote_nullifier = nullif,
                   vote_option_id = optionId, vote_timestamp = now, previous_vote_id = prev\<rparr>
        in Inr (row, s\<lparr>votes := votes s @ [row]\<rparr>))"

text \<open>
  \<^verbatim>\<open>DELETE FROM votes WHERE id = $1\<close>; the column
  \<^verbatim>\<open>previous_vote_id UUID REFERENCES votes(id) ON DELETE SET NULL\<close> of every row that
  referenced the deleted one becomes null.
\<close>

definition db_delete_vote :: "string \<Rightarrow> db \<Rightarrow> db" where
  "db_delete_vote vid s =
     s\<lparr>votes :=
         map (\<lambda>v. if previous_vote_id v = Some vid then v\<lparr>previous_vote_id := None\<rparr> else v)
           (filter (\<lambda>v. vote_id v \<noteq> vid) (votes s))\<rparr>"

text \<open>
  POST /:pollId/vote. The handler runs its statements one by one on the pool, with no
  transaction; the state returned with an error is the state at the failing statement.
\<close>

definition castOrUpdateVote ::
  "hash_fn \<Rightarrow> nat \<Rightarrow> string \<Rightarrow> string \<Rightarrow> string \<Rightarrow> string \<Rightarrow> db
     \<Rightarrow> (error + vote_row) \<times> db" where
  "castOrUpdateVote H now newId userId pollId optionId s =
     (case filter (\<lambda>p. poll_id p = pollId) (polls s) of
        [] \<Rightarrow> (Inl (NotFoundError ''Poll not found''), s)
      | poll # _ \<Rightarrow>
          if status poll \<noteq> active then (Inl (BadRequestError ''Poll is not active''), s)
          else if (case start_time poll of None \<Rightarrow> False | Some t \<Rightarrow> t > now)
            then (Inl (BadRequestError ''Poll has not started yet''), s)
          else if (case end_time poll of None \<Rightarrow> False | Some t \<Rightarrow> t < now)
            then (Inl (BadRequestError ''Poll has ended''), s)
          else if \<not> (\<exists>opt \<in> set (options poll). option_id opt = optionId)
            then (Inl (BadRequestError ''Invalid option ID''), s)
          else
            (case filter (\<lambda>u. user_id u = userId) (users s) of
               [] \<Rightarrow> (Inl (NotFoundError ''User not found''), s)
             | u # _ \<Rightarrow>
                 let nullif = generateNullifier H pollId (secret_salt u);
                     existingVoteResult =
                       filter (\<lambda>v. vote_poll_id v = pollId \<and> vote_nullifier v = nullif) (votes s)
                 in (case existingVoteResult of
                       ev # _ \<Rightarrow>
                         (let previousVoteId = vote_id ev
                          in case db_insert_vote newId now pollId nullif optionId
                                    (Some previousVoteId) s of
                               Inl e \<Rightarrow> (Inl (DatabaseError e), s)
                             | Inr (row, s1) \<Rightarrow> (Inr row, db_delete_vote previousVoteId s1))
                     | [] \<Rightarrow>
                         (case db_insert_vote newId now pollId nullif optionId None s of
                            Inl e \<Rightarrow> (Inl (DatabaseError e), s)
                          | Inr (row, s1) \<Rightarrow> (Inr row, s1)))))"

text \<open>
  GET /:pollId/has-voted: \<^verbatim>\<open>{hasVoted, vote: hasVoted ? rows[0] : null}\<close>, the vote
  given by its option id.
\<close>

definition hasVoted :: "hash_fn \<Rightarrow> string \<Rightarrow> string \<Rightarrow> db \<Rightarrow> error + (bool \<times> string option)" where
  "hasVoted H userId pollId s =
     (case filter (\<lambda>u. user_id u = userId) (users s) of
        [] \<Rightarrow> Inl (NotFoundError ''User not found'')
      | u # _ \<Rightarrow>
          let nullif = generateNullifier H pollId (secret_salt u);
              voteResult =
                filter (\<lambda>v. vote_poll_id v = pollId \<and> vote_nullifier v = nullif) (votes s)
          in (case voteResult of
                [] \<Rightarrow> Inr (False, None)
              | v # _ \<Rightarrow> Inr (True, Some (vote_option_id v))))"

text \<open>
  The count of one option in the results routes:
  \<^verbatim>\<open>SELECT option_id, COUNT(*) FROM votes WHERE poll_id = $1 GROUP BY option_id\<close>,
  and \<^verbatim>\<open>voteCounts[option.id] || 0\<close>; totalVotes is the sum of the groups' counts, the
  number of the poll's rows.
\<close>

definition voteCount :: "string \<Rightarrow> string \<Rightarrow> db \<Rightarrow> nat" where
  "voteCount pollId optionId s =
     length (filter (\<lambda>v. vote_poll_id v = pollId \<and> vote_option_id v = optionId) (votes s))"

definition totalVotes :: "string \<Rightarrow> db \<Rightarrow> nat" where
  "totalVotes pollId s = length (filter (\<lambda>v. vote_poll_id v = pollId) (votes s))"


section \<open>The audit log's only append path (routes/moderation.ts)\<close>

text \<open>
  The caller context that the authentication middleware leaves in \<^verbatim>\<open>req.user\<close>: the
  payload of the verified access token. Its role is typed by the shared \<^verbatim>\<open>UserRole\<close>
  enum ('citizen', 'official', 'moderator', 'admin', 'elected_official',
  'administration').
\<close>

datatype jwt_role = CITIZEN | OFFICIAL | MODERATOR | ADMIN | ELECTED_OFFICIAL | ADMINISTRATION

record req_user =
  req_userId :: string
  req_tenantId :: string
  req_role :: jwt_role

text \<open>
  Register and login (routes/auth.ts) sign \<^verbatim>\<open>generateAccessToken(user.id, user.tenantId,
  user.role)\<close> with the role of the \<^verbatim>\<open>users\<close> row, a value of the database enum
  \<^verbatim>\<open>user_role\<close> ('citizen', 'elected_official', 'administration'); refresh signs the
  role of the token it was given.
\<close>

fun token_role :: "db_user_role \<Rightarrow> jwt_role" where
  "token_role citizen = CITIZEN"
| "token_role elected_official = ELECTED_OFFICIAL"
| "token_role administration = ADMINISTRATION"

definition generateAccessToken :: "string \<Rightarrow> string \<Rightarrow> db_user_role \<Rightarrow> req_user" where
  "generateAccessToken userId tenantId r =
     \<lparr>req_userId = userId, req_tenantId = tenantId, req_role = token_role r\<rparr>"

text \<open>
  The table \<^verbatim>\<open>audit_events\<close> of 001_initial_schema.sql, the only definition of the table
  (no migration alters it): its columns with their types (uuid and varchar columns hold
  text).
\<close>

datatype sql_type = TextType | JsonbType | TimestampType

datatype sql_value = SqlText string | SqlJsonb "(string \<times> json) list" | SqlTimestamp nat

fun sql_type_of :: "sql_value \<Rightarrow> sql_type" where
  "sql_type_of (SqlText t) = TextType"
| "sql_type_of (SqlJsonb j) = JsonbType"
| "sql_type_of (SqlTimestamp n) = TimestampType"

definition audit_events_columns :: "(string \<times> sql_type) list" where
  "audit_events_columns =
     [(''id'', TextType), (''tenant_id'', TextType), (''event_type'', TextType),
      (''entity_type'', TextType), (''entity_id'', TextType), (''payload'', JsonbType),
      (''payload_hash'', TextType), (''previous_event_hash'', TextType),
      (''created_at'', TimestampType)]"

definition audit_events_not_null :: "string list" where
  "audit_events_not_null =
     [''tenant_id'', ''event_type'', ''entity_type'', ''entity_id'', ''payload'',
      ''payload_hash'']"

fun sql_text :: "sql_value option \<Rightarrow> string option" where
  "sql_text (Some (SqlText t)) = Some t"
| "sql_text v = None"

fun sql_jsonb :: "sql_value option \<Rightarrow> (string \<times> json) list" where
  "sql_jsonb (Some (SqlJsonb j)) = j"
| "sql_jsonb v = []"

fun sql_timestamp :: "sql_value option \<Rightarrow> nat option" where
  "sql_timestamp (Some (SqlTimestamp n)) = Some n"
| "sql_timestamp v = None"

definition text_or :: "string \<Rightarrow> string option \<Rightarrow> string" where
  "text_or d v = (case v of Some t \<Rightarrow> t | None \<Rightarrow> d)"

text \<open>
  \<^verbatim>\<open>INSERT INTO audit_events (c1, ..., cn) VALUES ($1, ..., $n)\<close>, given as the list of
  the named columns with their values. A column that the table does not have fails the
  statement (undefined_column) before any row is touched; then come the types, the NOT NULL
  columns, the primary key and the foreign key to \<^verbatim>\<open>tenants\<close>. A column that the
  statement does not name takes its default: a generated id, the current time, and null
  for \<^verbatim>\<open>previous_event_hash\<close>.
\<close>

definition db_insert_audit_event ::
  "string \<Rightarrow> nat \<Rightarrow> (string \<times> sql_value) list \<Rightarrow> db \<Rightarrow> db_error + db" where
  "db_insert_audit_event newId now assignments s =
     (case filter (\<lambda>c. map_of audit_events_columns c = None) (map fst assignments) of
        c # cs \<Rightarrow> Inl (UndefinedColumn c)
      | [] \<Rightarrow>
     (case filter (\<lambda>a. map_of audit_events_columns (fst a) \<noteq> Some (sql_type_of (snd a)))
             assignments of
        a # as \<Rightarrow> Inl (DatatypeMismatch (fst a))
      | [] \<Rightarrow>
     (case filter (\<lambda>c. map_of assignments c = None) audit_events_not_null of
        c # cs \<Rightarrow> Inl (NotNullViolation c)
      | [] \<Rightarrow>
        let row = \<lparr>payload_hash = text_or [] (sql_text (map_of assignments ''payload_hash'')),
                   previous_event_hash = sql_text (map_of assignments ''previous_event_hash''),
                   event_id = text_or newId (sql_text (map_of assignments ''id'')),
                   event_tenant_id = text_or [] (sql_text (map_of assignments ''tenant_id'')),
                   event_type = text_or [] (sql_text (map_of assignments ''event_type'')),
                   entity_type = text_or [] (sql_text (map_of assignments ''entity_type'')),
                   entity_id = text_or [] (sql_text (map_of assignments ''entity_id'')),
                   payload = sql_jsonb (map_of assignments ''payload''),
                   event_created_at =
                     (case sql_timestamp (map_of assignments ''created_at'') of
                        Some n \<Rightarrow> n | None \<Rightarrow> now)\<rparr>
        in if \<exists>e \<in> set (audit_events s). event_id e = event_id row
             then Inl (UniqueViolation ''audit_events_pkey'')
           else if event_tenant_id row \<notin> set (tenants s)
             then Inl (ForeignKeyViolation ''audit_events_tenant_id_fkey'')
           else Inr (s\<lparr>audit_events := audit_events s @ [row]\<rparr>))))"

text \<open>
  The statement of POST /comments/:commentId/hide (moderation.ts:135-147), the one
  statement of the repository that inserts an audit event:
  \<^verbatim>\<open>INSERT INTO audit_events (tenant_id, user_id, event_type, target_type, target_id,
  payload, payload_hash) VALUES ($1, $2, $3, $4, $5, $6, $7)\<close>. The payload is
  \<^verbatim>\<open>{action: 'hide', moderatorId}\<close>; the hash is the SHA-256 of
  \<^verbatim>\<open>JSON.stringify({commentId, action: 'hide'})\<close>.
\<close>

definition comment_hidden_insert ::
  "hash_fn \<Rightarrow> req_user \<Rightarrow> string \<Rightarrow> (string \<times> sql_value) list" where
  "comment_hidden_insert H user commentId =
     [(''tenant_id'', SqlText (req_tenantId user)),
      (''user_id'', SqlText (req_userId user)),
      (''event_type'', SqlText ''comment_hidden''),
      (''target_type'', SqlText ''comment''),
      (''target_id'', SqlText commentId),
      (''payload'',
         SqlJsonb [(''action'', JStr ''hide''), (''moderatorId'', JStr (req_userId user))]),
      (''payload_hash'',
         SqlText (H (JSON_stringify
                       (JObj [(''commentId'', JStr commentId), (''action'', JStr ''hide'')]))))]"

text \<open>
  POST /comments/:commentId/hide behind \<^verbatim>\<open>requireModerator\<close>. The route opens no
  transaction: when the INSERT raises, the UPDATE that hid the comment stays.
\<close>

definition hideComment ::
  "hash_fn \<Rightarrow> nat \<Rightarrow> string \<Rightarrow> req_user \<Rightarrow> string \<Rightarrow> db \<Rightarrow> (error + unit) \<times> db" where
  "hideComment H now newId user commentId s =
     (if req_role user \<noteq> ADMIN \<and> req_role user \<noteq> MODERATOR
        then (Inl (ForbiddenError ''Moderator access required''), s)
      else if \<not> (\<exists>c \<in> set (comments s). comment_id c = commentId \<and>
                   (\<exists>p \<in> set (polls s). poll_id p = comment_poll_id c \<and>
                      poll_tenant_id p = req_tenantId user))
        then (Inl (NotFoundError ''Comment not found''), s)
      else
        let s1 = s\<lparr>comments :=
                     map (\<lambda>c. if comment_id c = commentId then c\<lparr>is_hidden := True\<rparr> else c)
                       (comments s)\<rparr>
        in case db_insert_audit_event newId now (comment_hidden_insert H user commentId) s1 of
             Inl e \<Rightarrow> (Inl (DatabaseError e), s1)
           | Inr s2 \<Rightarrow> (Inr (), s2))"

text \<open>
  The rows that the audit routes read: \<^verbatim>\<open>WHERE tenant_id = $1 ORDER BY created_at ASC
  LIMIT $2\<close> (a stable sort of the table). The limit of GET /api/audit/verify defaults to
  100, that of GET /api/audit/export to 1000.
\<close>

definition tenant_events :: "string \<Rightarrow> nat \<Rightarrow> db \<Rightarrow> audit_event list" where
  "tenant_events tenantId limit s =
     take limit
       (sort_key event_created_at
          (filter (\<lambda>e. event_tenant_id e = tenantId) (audit_events s)))"

text \<open>
  GET /api/audit/verify: the answer's fields \<^verbatim>\<open>valid\<close> and \<^verbatim>\<open>eventsChecked\<close>.
  \<^verbatim>\<open>parseInt(req.query.limit) || 100\<close> is the limit, given here as an option.
\<close>

definition audit_verify :: "hash_fn \<Rightarrow> string \<Rightarrow> nat option \<Rightarrow> db \<Rightarrow> bool \<times> nat" where
  "audit_verify H tenantId limit s =
     (let events = tenant_events tenantId (case limit of Some n \<Rightarrow> n | None \<Rightarrow> 100) s
      in if length events = 0 then (True, 0)
         else (verifyHashChain H events, length events))"

section \<open>The consultation stage machine (routes/consultations.ts)\<close>

definition add_to_counter :: "vote_type \<Rightarrow> int \<Rightarrow> idea_row \<Rightarrow> idea_row" where
  "add_to_counter t d i =
     (case t of upvote \<Rightarrow> i\<lparr>upvotes := upvotes i + d\<rparr>
              | downvote \<Rightarrow> i\<lparr>downvotes := downvotes i + d\<rparr>)"

text \<open>\<^verbatim>\<open>UPDATE consultation_ideas SET ${field} = ${field} + d WHERE id = $1\<close>\<close>

definition db_bump_idea :: "string \<Rightarrow> vote_type \<Rightarrow> int \<Rightarrow> db \<Rightarrow> db" where
  "db_bump_idea ideaId t d s =
     s\<lparr>consultation_ideas :=
         map (\<lambda>i. if idea_id i = ideaId then add_to_counter t d i else i)
           (consultation_ideas s)\<rparr>"

text \<open>
  \<^verbatim>\<open>UPDATE consultation_ideas SET ${oldField} = ${oldField} - 1,
  ${newField} = ${newField} + 1 WHERE id = $1\<close>, on two different columns.
\<close>

definition db_flip_idea :: "string \<Rightarrow> vote_type \<Rightarrow> vote_type \<Rightarrow> db \<Rightarrow> db" where
  "db_flip_idea ideaId oldT newT s =
     s\<lparr>consultation_ideas :=
         map (\<lambda>i. if idea_id i = ideaId
                   then add_to_counter newT 1 (add_to_counter oldT (- 1) i) else i)
           (consultation_ideas s)\<rparr>"


text \<open>\<^verbatim>\<open>DELETE FROM consultation_idea_votes WHERE id = $1\<close>\<close>

definition db_delete_idea_vote :: "string \<Rightarrow> db \<Rightarrow> db" where
  "db_delete_idea_vote vid s =
     s\<lparr>consultation_idea_votes :=
         filter (\<lambda>v. idea_vote_id v \<noteq> vid) (consultation_idea_votes s)\<rparr>"

text \<open>\<^verbatim>\<open>UPDATE consultation_idea_votes SET vote_type = $1 WHERE id = $2\<close>\<close>

definition db_set_idea_vote_type :: "string \<Rightarrow> vote_type \<Rightarrow> db \<Rightarrow> db" where
  "db_set_idea_vote_type vid voteType s =
     s\<lparr>consultation_idea_votes :=
         map (\<lambda>v. if idea_vote_id v = vid then v\<lparr>iv_vote_type := voteType\<rparr> else v)
           (consultation_idea_votes s)\<rparr>"


text \<open>
  The ranking of the shortlisting statement,
  \<^verbatim>\<open>ORDER BY (upvotes - downvotes) DESC, created_at ASC\<close>: ascending in the pair
  (minus the score, the creation time). The sort is stable, so that rows equal in both
  keep their table order, one of the orders SQL allows.
\<close>

definition idea_score :: "idea_row \<Rightarrow> int" where
  "idea_score i = upvotes i - downvotes i"

definition rank_key :: "idea_row \<Rightarrow> int \<times> nat" where
  "rank_key i = (- idea_score i, idea_created_at i)"

definition poll_ideas :: "string \<Rightarrow> db \<Rightarrow> idea_row list" where
  "poll_ideas pollId s = filter (\<lambda>i. idea_poll_id i = pollId) (consultation_ideas s)"

text \<open>
  \<^verbatim>\<open>SELECT id FROM consultation_ideas WHERE poll_id = $1
  ORDER BY (upvotes - downvotes) DESC, created_at ASC LIMIT $2\<close>
\<close>

definition top_idea_ids :: "string \<Rightarrow> nat \<Rightarrow> db \<Rightarrow> string list" where
  "top_idea_ids pollId shortlistSize s =
     map idea_id (take shortlistSize (sort_key rank_key (poll_ideas pollId s)))"

text \<open>\<^verbatim>\<open>UPDATE consultation_ideas SET status = 'shortlisted' WHERE id IN (...)\<close>\<close>

definition db_shortlist_top :: "string \<Rightarrow> nat \<Rightarrow> db \<Rightarrow> db" where
  "db_shortlist_top pollId shortlistSize s =
     s\<lparr>consultation_ideas :=
         map (\<lambda>i. if idea_id i \<in> set (top_idea_ids pollId shortlistSize s)
                   then i\<lparr>idea_status := shortlisted\<rparr> else i)
           (consultation_ideas s)\<rparr>"

text \<open>
  \<^verbatim>\<open>UPDATE consultation_ideas SET status = 'rejected'
  WHERE poll_id = $1 AND status = 'submitted'\<close>
\<close>

definition db_reject_submitted :: "string \<Rightarrow> db \<Rightarrow> db" where
  "db_reject_submitted pollId s =
     s\<lparr>consultation_ideas :=
         map (\<lambda>i. if idea_poll_id i = pollId \<and> idea_status i = submitted
                   then i\<lparr>idea_status := rejected\<rparr> else i)
           (consultation_ideas s)\<rparr>"

text \<open>
  \<^verbatim>\<open>SELECT id, title FROM consultation_ideas WHERE poll_id = $1 AND status = 'shortlisted'
  ORDER BY (upvotes - downvotes) DESC\<close>, each row mapped to an option.
\<close>

definition shortlisted_options :: "string \<Rightarrow> db \<Rightarrow> poll_option list" where
  "shortlisted_options pollId s =
     map (\<lambda>i. \<lparr>option_id = idea_id i, option_text = title i\<rparr>)
       (sort_key (\<lambda>i. - idea_score i)
          (filter (\<lambda>i. idea_poll_id i = pollId \<and> idea_status i = shortlisted)
             (consultation_ideas s)))"

text \<open>\<^verbatim>\<open>UPDATE polls SET options = $1 WHERE id = $2\<close>\<close>

definition db_set_poll_options :: "string \<Rightarrow> poll_option list \<Rightarrow> db \<Rightarrow> db" where
  "db_set_poll_options pollId opts s =
     s\<lparr>polls := map (\<lambda>p. if poll_id p = pollId then p\<lparr>options := opts\<rparr> else p) (polls s)\<rparr>"

text \<open>\<^verbatim>\<open>UPDATE consultation_stages SET current_stage = $1 WHERE poll_id = $2\<close>\<close>

definition db_set_stage :: "string \<Rightarrow> consultation_stage \<Rightarrow> db \<Rightarrow> db" where
  "db_set_stage pollId nextStage s =
     s\<lparr>consultation_stages :=
         map (\<lambda>st. if stage_poll_id st = pollId then st\<lparr>current_stage := nextStage\<rparr> else st)
           (consultation_stages s)\<rparr>"

definition need_ideas_message :: "nat \<Rightarrow> nat \<Rightarrow> string" where
  "need_ideas_message minIdeas ideasCount =
     ''Cannot transition to Stage 2: Need at least '' @ nat_digits minIdeas @
     '' ideas (currently '' @ nat_digits ideasCount @ '')''"

text \<open>
  POST /:pollId/transition. The body's nextStage is validated to be one of
  shortlist_selection and final_arbitration; a user row that is missing makes
  \<^verbatim>\<open>userResult.rows[0].role\<close> raise a TypeError. The handler runs without a transaction.
\<close>

definition transitionStage ::
  "string \<Rightarrow> string \<Rightarrow> consultation_stage \<Rightarrow> db \<Rightarrow> (error + consultation_stage) \<times> db" where
  "transitionStage userId pollId nextStage s =
     (if nextStage = idea_collection then (Inl (BadRequestError ''Validation failed''), s)
      else
        (case filter (\<lambda>p. poll_id p = pollId) (polls s) of
           [] \<Rightarrow> (Inl (NotFoundError ''Poll not found''), s)
         | poll # _ \<Rightarrow>
             (case filter (\<lambda>u. user_id u = userId) (users s) of
                [] \<Rightarrow> (Inl TypeError, s)
              | u # _ \<Rightarrow>
                  let isCreator = (creator_id poll = userId);
                      isOfficial = (role u = elected_official \<or> role u = administration)
                  in if \<not> isCreator \<and> \<not> isOfficial
                     then (Inl (ForbiddenError
                                  ''Only poll creator or officials can transition stages''), s)
                     else
                       (case filter (\<lambda>st. stage_poll_id st = pollId) (consultation_stages s) of
                          [] \<Rightarrow> (Inl (NotFoundError ''Consultation stage info not found''), s)
                        | st # _ \<Rightarrow>
                            let currentStage = current_stage st;
                                minIdeas = min_ideas_for_stage_2 st;
                                shortlistSize = shortlist_size st
                            in if currentStage = idea_collection \<and>
                                  nextStage = shortlist_selection then
                                 (let ideasCount = length (poll_ideas pollId s)
                                  in if ideasCount < minIdeas
                                     then (Inl (BadRequestError
                                                  (need_ideas_message minIdeas ideasCount)), s)
                                     else (Inr nextStage,
                                           db_set_stage pollId nextStage
                                             (db_reject_submitted pollId
                                                (db_shortlist_top pollId shortlistSize s))))
                               else if currentStage = shortlist_selection \<and>
                                       nextStage = final_arbitration then
                                 (Inr nextStage,
                                  db_set_stage pollId nextStage
                                    (db_set_poll_options pollId (shortlisted_options pollId s) s))
                               else (Inl (BadRequestError ''Invalid stage transition''), s)))))"


text \<open>
  What a reader of the idea-vote ledger observes: the rows of one (idea, user) pair, the
  uniqueness that \<^verbatim>\<open>UNIQUE(idea_id, user_id)\<close> maintains, and the counter of one vote
  type on the idea with a given id.
\<close>

definition idea_votes_of :: "string \<Rightarrow> string \<Rightarrow> db \<Rightarrow> idea_vote_row list" where
  "idea_votes_of ideaId userId s =
     filter (\<lambda>v. iv_idea_id v = ideaId \<and> iv_user_id v = userId) (consultation_idea_votes s)"

definition idea_votes_unique :: "db \<Rightarrow> bool" where
  "idea_votes_unique s =
     distinct (map (\<lambda>v. (iv_idea_id v, iv_user_id v)) (consultation_idea_votes s))"

definition counter_of :: "vote_type \<Rightarrow> idea_row \<Rightarrow> int" where
  "counter_of t i = (case t of upvote \<Rightarrow> upvotes i | downvote \<Rightarrow> downvotes i)"

definition idea_counter :: "vote_type \<Rightarrow> string \<Rightarrow> db \<Rightarrow> int option" where
  "idea_counter t ideaId s =
     map_option (counter_of t) (find (\<lambda>i. idea_id i = ideaId) (consultation_ideas s))"


text \<open>
  The order of the specification (section 4.6): by score = upvotes - downvotes descending,
  ties broken by the earlier submission time.
\<close>

definition spec_ranks_before :: "idea_row \<Rightarrow> idea_row \<Rightarrow> bool" where
  "spec_ranks_before a b =
     (idea_score a > idea_score b \<or>
      (idea_score a = idea_score b \<and> idea_created_at a \<le> idea_created_at b))"

text \<open>
  The status that shortlisting gives an idea of the poll, once the ids \<open>T\<close> of the
  selected ideas are known.
\<close>

definition restatus :: "string list \<Rightarrow> idea_row \<Rightarrow> idea_row" where
  "restatus T i = i\<lparr>idea_status := (if idea_id i \<in> set T then shortlisted else rejected)\<rparr>"

section \<open>Concrete states used in evaluations\<close>

definition db_empty :: db where
  "db_empty = \<lparr>tenants = [], polls = [], users = [], votes = [], comments = [], audit_events = [],
     consultation_stages = [], consultation_ideas = [], consultation_idea_votes = []\<rparr>"

text \<open>
  The example of the specification: the active poll P1 with the options O1 and O2 and no
  time window, and the user U1 whose secret is S1.
\<close>

definition db_poll_P1 :: db where
  "db_poll_P1 = db_empty\<lparr>
     tenants := [''T1''],
     polls := [\<lparr>poll_id = ''P1'', poll_tenant_id = ''T1'', creator_id = ''U0'', status = active,
               start_time = None, end_time = None,
               options = [\<lparr>option_id = ''O1'', option_text = ''yes''\<rparr>,
                          \<lparr>option_id = ''O2'', option_text = ''no''\<rparr>]\<rparr>],
     users := [\<lparr>user_id = ''U1'', role = citizen, secret_salt = ''S1''\<rparr>]\<rparr>"

definition vote_P1_O1 :: "hash_fn \<Rightarrow> vote_row" where
  "vote_P1_O1 H = \<lparr>vote_id = ''V1'', vote_poll_id = ''P1'',
      vote_nullifier = generateNullifier H ''P1'' ''S1'', vote_option_id = ''O1'',
      vote_timestamp = 5, previous_vote_id = None\<rparr>"

definition db_voted_O1 :: "hash_fn \<Rightarrow> db" where
  "db_voted_O1 H = db_poll_P1\<lparr>votes := [vote_P1_O1 H]\<rparr>"

text \<open>
  Audit events for the tenant T1. \<open>chain_event\<close> stores the payload hash that the
  standalone verifier recomputes. The pair \<open>chained_event0\<close>, \<open>chained_event1\<close> is linked
  by generateChainHash, as the crypto package's tests build a chain; the events
  \<open>payload_linked_event\<close> are linked by the previous event's payload hash.
\<close>

definition chain_event ::
  "hash_fn \<Rightarrow> string \<Rightarrow> (string \<times> json) list \<Rightarrow> string option \<Rightarrow> nat \<Rightarrow> audit_event" where
  "chain_event H eid pl prev t =
     \<lparr>payload_hash = computePayloadHash H pl, previous_event_hash = prev, event_id = eid,
      event_tenant_id = ''T1'', event_type = ''vote_cast'', entity_type = ''poll'',
      entity_id = ''P1'', payload = pl, event_created_at = t\<rparr>"

definition chained_event0 :: "hash_fn \<Rightarrow> audit_event" where
  "chained_event0 H = chain_event H ''E0'' [(''n'', JNum 0)] None 0"

definition chained_event1 :: "hash_fn \<Rightarrow> audit_event" where
  "chained_event1 H =
     chain_event H ''E1'' [(''n'', JNum 1)]
       (Some (generateChainHash H (payload_hash (chained_event0 H)) None)) 1"

definition payload_linked_event :: "hash_fn \<Rightarrow> nat \<Rightarrow> audit_event" where
  "payload_linked_event H k =
     chain_event H (''E'' @ nat_digits k) [(''n'', JNum (int k))]
       (if k = 0 then None else Some (computePayloadHash H [(''n'', JNum (int k - 1))])) k"

text \<open>
  Five events whose payload carries the vote in a nested object,
  \<^verbatim>\<open>{action: 'vote', n: k, vote: {optionId: ...}}\<close>, each linked by the previous
  event's payload hash.
\<close>

definition vote_payload :: "nat \<Rightarrow> string \<Rightarrow> (string \<times> json) list" where
  "vote_payload k optionId =
     [(''action'', JStr ''vote''), (''n'', JNum (int k)),
      (''vote'', JObj [(''optionId'', JStr optionId)])]"

definition nested_event :: "hash_fn \<Rightarrow> nat \<Rightarrow> audit_event" where
  "nested_event H k =
     chain_event H (''E'' @ nat_digits k) (vote_payload k ''O1'')
       (if k = 0 then None else Some (computePayloadHash H (vote_payload (k - 1) ''O1''))) k"

definition nested_chain :: "hash_fn \<Rightarrow> audit_event list" where
  "nested_chain H = map (nested_event H) [0, 1, 2, 3, 4]"

text \<open>
  The caller M1 of tenant T1 with the role 'moderator' in \<^verbatim>\<open>req.user\<close>, and the comment
  C1 of poll P1.
\<close>

definition moderator_M1 :: req_user where
  "moderator_M1 = \<lparr>req_userId = ''M1'', req_tenantId = ''T1'', req_role = MODERATOR\<rparr>"

definition db_comment_C1 :: db where
  "db_comment_C1 = db_poll_P1\<lparr>
     comments := [\<lparr>comment_id = ''C1'', comment_poll_id = ''P1'', is_hidden = False\<rparr>]\<rparr>"

text \<open>
  A consultation on poll P1 in stage idea_collection, created by U0, with threshold 3 and
  shortlist size 2, four submitted ideas (scores 2, 5, 2, 2) and one upvote of U1 on I1.
\<close>

definition db_consultation :: db where
  "db_consultation = db_empty\<lparr>
     tenants := [''T1''],
     polls := [\<lparr>poll_id = ''P1'', poll_tenant_id = ''T1'', creator_id = ''U0'', status = active,
               start_time = None, end_time = None, options = []\<rparr>],
     users := [\<lparr>user_id = ''U0'', role = citizen, secret_salt = ''S0''\<rparr>,
               \<lparr>user_id = ''U1'', role = citizen, secret_salt = ''S1''\<rparr>],
     consultation_stages :=
       [\<lparr>stage_poll_id = ''P1'', current_stage = idea_collection,
         min_ideas_for_stage_2 = 3, shortlist_size = 2\<rparr>],
     consultation_ideas :=
       [\<lparr>idea_id = ''I1'', idea_poll_id = ''P1'', submitter_id = ''U1'', title = ''one'',
         upvotes = 3, downvotes = 1, idea_status = submitted, idea_created_at = 10\<rparr>,
        \<lparr>idea_id = ''I2'', idea_poll_id = ''P1'', submitter_id = ''U1'', title = ''two'',
         upvotes = 5, downvotes = 0, idea_status = submitted, idea_created_at = 11\<rparr>,
        \<lparr>idea_id = ''I3'', idea_poll_id = ''P1'', submitter_id = ''U0'', title = ''three'',
         upvotes = 2, downvotes = 0, idea_status = submitted, idea_created_at = 12\<rparr>,
        \<lparr>idea_id = ''I4'', idea_poll_id = ''P1'', submitter_id = ''U0'', title = ''four'',
         upvotes = 3, downvotes = 1, idea_status = submitted, idea_created_at = 9\<rparr>],
     consultation_idea_votes :=
       [\<lparr>idea_vote_id = ''IV1'', iv_idea_id = ''I1'', iv_user_id = ''U1'',
         iv_vote_type = upvote\<rparr>]\<rparr>"

text \<open>The same consultation with threshold 5.\<close>

definition db_consultation_strict :: db where
  "db_consultation_strict = db_consultation\<lparr>
     consultation_stages :=
       [\<lparr>stage_poll_id = ''P1'', current_stage = idea_collection,
         min_ideas_for_stage_2 = 5, shortlist_size = 2\<rparr>]\<rparr>"

text \<open>The same consultation with threshold 3 and shortlist size 5.\<close>

definition db_consultation_wide :: db where
  "db_consultation_wide = db_consultation\<lparr>
     consultation_stages :=
       [\<lparr>stage_poll_id = ''P1'', current_stage = idea_collection,
         min_ideas_for_stage_2 = 3, shortlist_size = 5\<rparr>]\<rparr>"

section \<open>Properties of the nullifier encoding\<close>

lemma symbolic_sha256_inj: "symbolic_sha256 a = symbolic_sha256 b \<Longrightarrow> a = b"
  by (simp add: symbolic_sha256_def)

lemma nullifier_data_split:
  assumes "CHR '':'' \<notin> set p1" and "CHR '':'' \<notin> set p2"
    and "p1 @ CHR '':'' # s1 = p2 @ CHR '':'' # s2"
  shows "p1 = p2 \<and> s1 = s2"
  using assms
proof (induction p1 arbitrary: p2)
  case Nil
  then show ?case by (cases p2) auto
next
  case (Cons a p1)
  then show ?case by (cases p2) auto
qed

text \<open>
  C5 (as stated, refuted): two distinct (pollId, secret) pairs with the same hash input.
  The poll id \<open>a:b\<close> with secret \<open>c\<close> and the poll id \<open>a\<close> with secret \<open>b:c\<close> both
  give the string \<open>a:b:c\<close>, hence the same nullifier under every hash.
\<close>

theorem nullifier_encoding_ambiguous:
  "(''a:b'', ''c'') \<noteq> (''a'', ''b:c'')
   \<and> nullifier_data ''a:b'' ''c'' = nullifier_data ''a'' ''b:c''
   \<and> generateNullifier symbolic_sha256 ''a:b'' ''c'' = generateNullifier symbolic_sha256 ''a'' ''b:c''"
  by (simp add: nullifier_data_def generateNullifier_def)

text \<open>
  C5 (amended): the encoding that generateNullifier hashes is unambiguous on poll ids
  that contain no colon, which is what the routes pass (the pollId parameter is validated
  as a UUID): for such poll ids, equal hash inputs come from equal (pollId, secret)
  pairs.
\<close>

theorem nullifier_encoding_unambiguous_without_colon:
  assumes "CHR '':'' \<notin> set pollId1" and "CHR '':'' \<notin> set pollId2"
    and "nullifier_data pollId1 secret1 = nullifier_data pollId2 secret2"
  shows "pollId1 = pollId2 \<and> secret1 = secret2"
  using assms nullifier_data_split [of pollId1 pollId2 secret1 secret2]
  by (simp add: nullifier_data_def)

theorem nullifier_encoding_unambiguous_without_colon_witness:
  "CHR '':'' \<notin> set ''p1'' \<and> CHR '':'' \<notin> set ''p1''
   \<and> nullifier_data ''p1'' ''s:1'' = nullifier_data ''p1'' ''s:1''
   \<and> ''p1'' = ''p1'' \<and> ''s:1'' = ''s:1''"
  using nullifier_encoding_unambiguous_without_colon [of "''p1''" "''p1''" "''s:1''" "''s:1''"]
  by simp

section \<open>Properties of the vote ledger\<close>

lemma db_insert_vote_Inr:
  "db_insert_vote newId now pollId nullif optionId prev s = Inr (row, s1) \<Longrightarrow>
     votes s1 = votes s @ [row] \<and> previous_vote_id row = prev \<and> vote_id row = newId"
  by (auto simp: db_insert_vote_def Let_def split: if_splits)

text \<open>After a delete no row points to the deleted row (ON DELETE SET NULL).\<close>

lemma db_delete_vote_clears_pointer:
  assumes "v \<in> set (votes (db_delete_vote vid s))"
  shows "previous_vote_id v \<noteq> Some vid"
  using assms by (auto simp: db_delete_vote_def)

lemma db_delete_vote_null:
  assumes "\<forall>v \<in> set (votes s). previous_vote_id v = None \<or> previous_vote_id v = Some vid"
  shows "\<forall>v \<in> set (votes (db_delete_vote vid s)). previous_vote_id v = None"
  using assms by (auto simp: db_delete_vote_def)

text \<open>
  Whenever the caller's nullifier already has a vote on the poll, the route ends in an
  error and leaves the store as it was: the replacement row is inserted while the old row
  is still there, and \<^verbatim>\<open>UNIQUE(poll_id, nullifier)\<close> refuses it.
\<close>

lemma castOrUpdateVote_existing_vote_fails:
  assumes "filter (\<lambda>u. user_id u = userId) (users s) = u # us"
    and "\<exists>v \<in> set (votes s). vote_poll_id v = pollId \<and>
           vote_nullifier v = generateNullifier H pollId (secret_salt u)"
  shows "\<exists>e. castOrUpdateVote H now newId userId pollId optionId s = (Inl e, s)"
proof -
  have ins: "db_insert_vote newId now pollId (generateNullifier H pollId (secret_salt u))
               optionId prev s \<noteq> Inr x" for prev x
    using assms(2) by (auto simp: db_insert_vote_def)
  have ne: "filter (\<lambda>v. vote_poll_id v = pollId \<and>
              vote_nullifier v = generateNullifier H pollId (secret_salt u)) (votes s) \<noteq> []"
    using assms(2) by (auto simp: filter_empty_conv)
  show ?thesis
    unfolding castOrUpdateVote_def Let_def assms(1)
    using ne
    by (auto simp: ins split: list.splits sum.splits)
qed

text \<open>
  C1 (the code departs from the claim): in the specification's example, the first cast of
  O1 for (P1, S1) succeeds and stores one row; the cast of O2 by the same user then fails
  with the unique violation of (poll_id, nullifier), the store still holds the O1 row,
  hasVoted still reports O1, and the counts of O1 and O2 stay 1 and 0. This holds for
  every hash function \<open>H\<close>.
\<close>

theorem castOrUpdateVote_change_of_option_rejected:
  "castOrUpdateVote H 5 ''V1'' ''U1'' ''P1'' ''O1'' db_poll_P1
     = (Inr (vote_P1_O1 H), db_voted_O1 H)
   \<and> castOrUpdateVote H 9 ''V2'' ''U1'' ''P1'' ''O2'' (db_voted_O1 H)
     = (Inl (DatabaseError (UniqueViolation ''votes_poll_id_nullifier_key'')), db_voted_O1 H)
   \<and> hasVoted H ''U1'' ''P1'' (db_voted_O1 H) = Inr (True, Some ''O1'')
   \<and> voteCount ''P1'' ''O1'' (db_voted_O1 H) = 1
   \<and> voteCount ''P1'' ''O2'' (db_voted_O1 H) = 0
   \<and> totalVotes ''P1'' (db_voted_O1 H) = 1"
  by (simp add: castOrUpdateVote_def hasVoted_def voteCount_def totalVotes_def db_voted_O1_def
      db_poll_P1_def
      db_empty_def db_insert_vote_def vote_P1_O1_def Let_def)

text \<open>
  If every vote row of the store has a null previous_vote_id before the call, then so has
  every row afterwards, whatever the call returns.
\<close>

lemma castOrUpdateVote_pointers_stay_null:
  assumes "\<forall>v \<in> set (votes s). previous_vote_id v = None"
  shows "\<forall>v \<in> set (votes (snd (castOrUpdateVote H now newId userId pollId optionId s))).
           previous_vote_id v = None"
proof -
  have upd: "\<forall>v \<in> set (votes (db_delete_vote pv s1)). previous_vote_id v = None"
    if "db_insert_vote newId now pollId nullif optionId (Some pv) s = Inr (row, s1)"
    for nullif pv row s1
    using db_insert_vote_Inr [OF that] assms
    by (intro db_delete_vote_null) auto
  have ins: "\<forall>v \<in> set (votes s1). previous_vote_id v = None"
    if "db_insert_vote newId now pollId nullif optionId None s = Inr (row, s1)"
    for nullif row s1
    using db_insert_vote_Inr [OF that] assms by auto
  show ?thesis
    using assms upd ins
    by (auto simp: castOrUpdateVote_def Let_def
        split: list.splits sum.splits option.splits prod.splits)
qed

text \<open>
  The insert of the update path is refused on every store: the row it replaces has the
  same (poll_id, nullifier).
\<close>

lemma db_insert_vote_replacement_refused:
  assumes "filter (\<lambda>v. vote_poll_id v = pollId \<and> vote_nullifier v = nullif) (votes s) = ev # evs"
  shows "\<exists>e. db_insert_vote newId now pollId nullif optionId prev s = Inl e"
proof -
  have "ev \<in> set (filter (\<lambda>v. vote_poll_id v = pollId \<and> vote_nullifier v = nullif) (votes s))"
    unfolding assms by simp
  then have "\<exists>v \<in> set (votes s). vote_poll_id v = pollId \<and> vote_nullifier v = nullif"
    by auto
  then show ?thesis by (simp add: db_insert_vote_def)
qed

lemma castOrUpdateVote_response_pointer:
  "(case fst (castOrUpdateVote H now newId userId pollId optionId s) of
      Inl e \<Rightarrow> None | Inr row \<Rightarrow> previous_vote_id row) = None"
proof -
  have upd: "(case (case db_insert_vote newId now pollId nullif optionId (Some (vote_id ev)) s of
                Inl e \<Rightarrow> (Inl (DatabaseError e), s)
              | Inr (row, s1) \<Rightarrow> (Inr row, db_delete_vote (vote_id ev) s1)) of
              (Inl e, s') \<Rightarrow> None | (Inr row, s') \<Rightarrow> previous_vote_id row) = None"
    if "filter (\<lambda>v. vote_poll_id v = pollId \<and> vote_nullifier v = nullif) (votes s) = ev # evs"
    for nullif ev evs
    using db_insert_vote_replacement_refused [OF that, of newId now optionId "Some (vote_id ev)"]
    by auto
  have ins: "(case (case db_insert_vote newId now pollId nullif optionId None s of
                Inl e \<Rightarrow> (Inl (DatabaseError e), s)
              | Inr (row, s1) \<Rightarrow> (Inr row, s1)) of
              (Inl e, s') \<Rightarrow> None | (Inr row, s') \<Rightarrow> previous_vote_id row) = None"
    for nullif
    by (auto simp: db_insert_vote_def Let_def split: sum.splits)
  have "(case castOrUpdateVote H now newId userId pollId optionId s of
           (Inl e, s') \<Rightarrow> None | (Inr row, s') \<Rightarrow> previous_vote_id row) = None"
    unfolding castOrUpdateVote_def Let_def
    using upd ins by (simp split: list.split)
  then show ?thesis
    by (cases "castOrUpdateVote H now newId userId pollId optionId s") (auto split: sum.splits)
qed

text \<open>
  C10 (the code departs from the claim): the update path does not complete. In the
  specification's example, with the O1 vote V1 of (P1, S1) stored, the cast of O2 inserts
  the replacement row with the pointer to V1 while V1 is still there, and
  \<^verbatim>\<open>UNIQUE(poll_id, nullifier)\<close> refuses the insert: the route answers with the
  database error, the DELETE and its ON DELETE SET NULL are not reached, the store still
  holds V1 alone with its option O1 and a null pointer, and the response carries no
  superseded vote id. For every request and store, the vote of a successful response has
  a null previous_vote_id.
\<close>

theorem castOrUpdateVote_update_path_never_completes:
  "filter (\<lambda>v. vote_poll_id v = ''P1'' \<and> vote_nullifier v = generateNullifier H ''P1'' ''S1'')
       (votes (db_voted_O1 H)) = [vote_P1_O1 H]
   \<and> db_insert_vote ''V2'' 9 ''P1'' (generateNullifier H ''P1'' ''S1'') ''O2'' (Some ''V1'')
       (db_voted_O1 H) = Inl (UniqueViolation ''votes_poll_id_nullifier_key'')
   \<and> fst (castOrUpdateVote H 9 ''V2'' ''U1'' ''P1'' ''O2'' (db_voted_O1 H))
       = Inl (DatabaseError (UniqueViolation ''votes_poll_id_nullifier_key''))
   \<and> map (\<lambda>v. (vote_id v, vote_option_id v, previous_vote_id v))
        (votes (snd (castOrUpdateVote H 9 ''V2'' ''U1'' ''P1'' ''O2'' (db_voted_O1 H))))
       = [(''V1'', ''O1'', None)]
   \<and> (case fst (castOrUpdateVote H now newId userId pollId optionId s) of
         Inl e \<Rightarrow> None | Inr row \<Rightarrow> previous_vote_id row) = None"
proof -
  have "filter (\<lambda>v. vote_poll_id v = ''P1'' \<and> vote_nullifier v = generateNullifier H ''P1'' ''S1'')
       (votes (db_voted_O1 H)) = [vote_P1_O1 H]
   \<and> db_insert_vote ''V2'' 9 ''P1'' (generateNullifier H ''P1'' ''S1'') ''O2'' (Some ''V1'')
       (db_voted_O1 H) = Inl (UniqueViolation ''votes_poll_id_nullifier_key'')
   \<and> fst (castOrUpdateVote H 9 ''V2'' ''U1'' ''P1'' ''O2'' (db_voted_O1 H))
       = Inl (DatabaseError (UniqueViolation ''votes_poll_id_nullifier_key''))
   \<and> map (\<lambda>v. (vote_id v, vote_option_id v, previous_vote_id v))
        (votes (snd (castOrUpdateVote H 9 ''V2'' ''U1'' ''P1'' ''O2'' (db_voted_O1 H))))
       = [(''V1'', ''O1'', None)]"
    by (simp add: castOrUpdateVote_def db_voted_O1_def db_poll_P1_def db_empty_def
        db_insert_vote_def vote_P1_O1_def Let_def)
  then show ?thesis
    using castOrUpdateVote_response_pointer [of H now newId userId pollId optionId s]
    by blast
qed

section \<open>Properties of the two chain verifiers\<close>

lemma verifyHashChain_loop_step:
  assumes "i < length events"
  shows "verifyHashChain_loop H events i =
           (spec_link_valid H events i \<and> verifyHashChain_loop H events (i + 1))"
  using assms
  by (subst verifyHashChain_loop.simps) (simp add: spec_link_valid_def)

lemma verifyHashChain_loop_done:
  assumes "\<not> i < length events"
  shows "verifyHashChain_loop H events i"
  using assms by (subst verifyHashChain_loop.simps) simp

lemma verifyHashChain_loop_iff:
  "verifyHashChain_loop H events i \<longleftrightarrow>
     (\<forall>j. i \<le> j \<and> j < length events \<longrightarrow> spec_link_valid H events j)"
proof (induction "length events - i" arbitrary: i)
  case 0
  then have "\<not> i < length events" by simp
  then show ?case using verifyHashChain_loop_done [of i events H] by auto
next
  case (Suc n)
  then have lt: "i < length events" and n: "n = length events - (i + 1)" by auto
  have "(\<forall>j. i \<le> j \<and> j < length events \<longrightarrow> spec_link_valid H events j) \<longleftrightarrow>
        (spec_link_valid H events i \<and>
         (\<forall>j. i + 1 \<le> j \<and> j < length events \<longrightarrow> spec_link_valid H events j))"
  proof -
    have "i \<le> j \<longleftrightarrow> j = i \<or> i + 1 \<le> j" for j by auto
    then show ?thesis using lt by auto
  qed
  then show ?case
    using Suc.hyps(1) [OF n] verifyHashChain_loop_step [OF lt, of H] by simp
qed

lemma verifyHashChain_iff:
  "verifyHashChain H events \<longleftrightarrow> (\<forall>j < length events. spec_link_valid H events j)"
  by (simp add: verifyHashChain_def verifyHashChain_loop_iff)

lemma cli_check_event_errors:
  "fst (cli_check_event H events i st) = fst st @ cli_event_errors H events i"
  by (cases st) (simp add: cli_check_event_def cli_event_errors_def verifyEventHash_def Let_def)

lemma cli_loop_errors:
  "fst (cli_loop H events i st) =
     fst st @ concat (map (cli_event_errors H events) [i ..< length events])"
proof (induction "length events - i" arbitrary: i st)
  case 0
  then have "\<not> i < length events" by simp
  then show ?case by (subst cli_loop.simps) simp
next
  case (Suc n)
  then have lt: "i < length events" and n: "n = length events - (i + 1)" by auto
  have "cli_loop H events i st = cli_loop H events (i + 1) (cli_check_event H events i st)"
    using lt by (subst cli_loop.simps) simp
  then show ?case
    using Suc.hyps(1) [OF n, of "cli_check_event H events i st"] lt
    by (simp add: cli_check_event_errors upt_conv_Cons)
qed

lemma cli_errors:
  "errors (cli_verifyHashChain H events) =
     (if events = [] then []
      else (if previous_event_hash (events ! 0) \<noteq> None
            then [FirstEventNotNull (event_id (events ! 0))] else [])
           @ concat (map (cli_event_errors H events) [0 ..< length events]))"
proof (cases "events = []")
  case True
  then show ?thesis by (simp add: cli_verifyHashChain_def)
next
  case False
  define errs0 where "errs0 = (if previous_event_hash (events ! 0) \<noteq> None
                     then [FirstEventNotNull (event_id (events ! 0))] else [])"
  obtain errs vh vl where r: "cli_loop H events 0 (errs0, 0, 0) = (errs, vh, vl)"
    by (cases "cli_loop H events 0 (errs0, 0, 0)") auto
  have e: "errs = errs0 @ concat (map (cli_event_errors H events) [0 ..< length events])"
    using cli_loop_errors [of H events 0 "(errs0, 0, 0)"] r by simp
  have "cli_verifyHashChain H events =
          \<lparr>valid = (length errs = 0), errors = errs, warnings = [],
           stats = \<lparr>totalEvents = length events, validHashes = vh,
                    validLinks = length events - 1\<rparr>\<rparr>"
    using False r [unfolded errs0_def] unfolding cli_verifyHashChain_def Let_def by simp
  then have "errors (cli_verifyHashChain H events) = errs" by simp
  then show ?thesis using False e by (simp add: errs0_def)
qed

lemma cli_valid:
  "valid (cli_verifyHashChain H events) \<longleftrightarrow> errors (cli_verifyHashChain H events) = []"
proof (cases "events = []")
  case True
  then show ?thesis by (simp add: cli_verifyHashChain_def)
next
  case False
  obtain errs vh vl where r: "cli_loop H events 0
      (if previous_event_hash (events ! 0) \<noteq> None
       then [FirstEventNotNull (event_id (events ! 0))] else [], 0, 0) = (errs, vh, vl)"
    using prod_cases3 by blast
  show ?thesis
    using False r unfolding cli_verifyHashChain_def Let_def by simp
qed

lemma cli_payload_mismatch_reported:
  assumes "i < length events"
    and "computePayloadHash H (payload (events ! i)) \<noteq> payload_hash (events ! i)"
  shows "\<not> valid (cli_verifyHashChain H events) \<and>
     PayloadHashMismatch i (event_id (events ! i)) (payload_hash (events ! i))
       (computePayloadHash H (payload (events ! i))) \<in> set (errors (cli_verifyHashChain H events))"
proof -
  let ?e = "PayloadHashMismatch i (event_id (events ! i)) (payload_hash (events ! i))
              (computePayloadHash H (payload (events ! i)))"
  have "?e \<in> set (cli_event_errors H events i)"
    using assms(2) by (simp add: cli_event_errors_def)
  moreover have "i \<in> set [0 ..< length events]" using assms(1) by simp
  ultimately have "?e \<in> set (concat (map (cli_event_errors H events) [0 ..< length events]))"
    unfolding set_concat by force
  moreover have "events \<noteq> []" using assms(1) by auto
  ultimately have in_errs: "?e \<in> set (errors (cli_verifyHashChain H events))"
    by (simp add: cli_errors)
  then have "errors (cli_verifyHashChain H events) \<noteq> []" by auto
  then show ?thesis using in_errs by (simp add: cli_valid)
qed

lemma cli_event_errors_empty:
  "cli_event_errors H events i = [] \<longleftrightarrow>
     computePayloadHash H (payload (events ! i)) = payload_hash (events ! i)
     \<and> (i > 0 \<longrightarrow> previous_event_hash (events ! i) = Some (payload_hash (events ! (i - 1))))"
  by (simp add: cli_event_errors_def)

lemma cli_valid_iff:
  "valid (cli_verifyHashChain H events) \<longleftrightarrow>
     (events = [] \<or> previous_event_hash (events ! 0) = None) \<and>
     (\<forall>i < length events.
         computePayloadHash H (payload (events ! i)) = payload_hash (events ! i)
         \<and> (i > 0 \<longrightarrow> previous_event_hash (events ! i) = Some (payload_hash (events ! (i - 1)))))"
proof (cases "events = []")
  case True
  then show ?thesis by (simp add: cli_valid cli_errors)
next
  case False
  have c: "(concat (map (cli_event_errors H events) [0 ..< length events]) = []) \<longleftrightarrow>
        (\<forall>i < length events. cli_event_errors H events i = [])"
    by auto
  have "valid (cli_verifyHashChain H events) \<longleftrightarrow>
     previous_event_hash (events ! 0) = None \<and>
     concat (map (cli_event_errors H events) [0 ..< length events]) = []"
    using False by (simp add: cli_valid cli_errors)
  then show ?thesis
    unfolding c cli_event_errors_empty using False by simp
qed

section \<open>Properties of the payload hash\<close>

lemma map_of_rendered:
  "map_of (map (map_prod id f) kvs) k = map_option f (map_of kvs k)"
  by (induction kvs) auto

lemma members_replacer_cong:
  assumes "map_of r1 = map_of r2"
  shows "members (Some ks) r1 = members (Some ks) r2"
  using assms by (simp add: members_def)

lemma computePayloadHash_order_invariant:
  assumes "distinct (map fst p1)" and "distinct (map fst p2)" and "set p1 = set p2"
  shows "computePayloadHash H p1 = computePayloadHash H p2"
proof -
  have mo: "map_of p1 = map_of p2"
    using assms by (simp add: map_of_inject_set)
  have "set (map fst p1) = set (map fst p2)"
    using assms(3) by simp
  then have keys: "sort (Object_keys p1) = sort (Object_keys p2)"
    unfolding Object_keys_def using assms(1,2)
    by (intro sorted_distinct_set_unique) simp_all
  have "members (Some ks) (map (map_prod id f) p1) = members (Some ks) (map (map_prod id f) p2)"
    for f :: "json \<Rightarrow> string" and ks
    by (rule members_replacer_cong) (rule ext, simp add: map_of_rendered mo)
  then show ?thesis
    unfolding computePayloadHash_def keys by simp
qed

text \<open>
  C6 (the code departs from the claim): generateHash, the crypto package's payload hash,
  serialises with a plain JSON.stringify, which writes the properties in insertion order.
  The objects {a: 1, b: 2} and {b: 2, a: 1} have the same keys and values and get
  different serialisations, hence different hashes under an injective hash. The standalone
  verifier's computePayloadHash sorts the keys and gives both the same hash, under every
  hash function.
\<close>

theorem generateHash_depends_on_insertion_order:
  "JSON_stringify (JObj [(''a'', JNum 1), (''b'', JNum 2)])
     \<noteq> JSON_stringify (JObj [(''b'', JNum 2), (''a'', JNum 1)])
   \<and> generateHash symbolic_sha256 (JObj [(''a'', JNum 1), (''b'', JNum 2)])
     \<noteq> generateHash symbolic_sha256 (JObj [(''b'', JNum 2), (''a'', JNum 1)])
   \<and> computePayloadHash H [(''a'', JNum 1), (''b'', JNum 2)]
     = computePayloadHash H [(''b'', JNum 2), (''a'', JNum 1)]"
proof -
  have "computePayloadHash H [(''a'', JNum 1), (''b'', JNum 2)]
          = computePayloadHash H [(''b'', JNum 2), (''a'', JNum 1)]"
    by (rule computePayloadHash_order_invariant) auto
  then show ?thesis
    by (simp add: generateHash_def JSON_stringify_def members_def symbolic_sha256_def
        json_quote_def quote_char_def)
qed

section \<open>Properties of the audit append and of verification\<close>

lemma verifyHashChain_link_failure:
  assumes "i < length events" and "\<not> spec_link_valid H events i"
  shows "\<not> verifyHashChain H events"
  using assms unfolding verifyHashChain_iff by blast

lemma cli_link_failure:
  assumes "0 < i" and "i < length events"
    and "previous_event_hash (events ! i) \<noteq> Some (payload_hash (events ! (i - 1)))"
  shows "\<not> valid (cli_verifyHashChain H events)"
  using assms unfolding cli_valid_iff by blast

lemmas chain_eval = chained_event0_def chained_event1_def chain_event_def
  payload_linked_event_def

lemmas hide_eval = hideComment_def Let_def db_comment_C1_def db_poll_P1_def db_empty_def
  moderator_M1_def

text \<open>
  The INSERT of the hide route fails on every store: \<^verbatim>\<open>user_id\<close> is the first column
  it names that the table does not have.
\<close>

lemma comment_hidden_insert_undefined_column:
  "db_insert_audit_event newId now (comment_hidden_insert H user commentId) s
     = Inl (UndefinedColumn ''user_id'')"
  by (simp add: db_insert_audit_event_def comment_hidden_insert_def audit_events_columns_def)

text \<open>
  A statement that names columns of the table only, and all the NOT NULL ones, stores its
  row, with a null \<^verbatim>\<open>previous_event_hash\<close> when it does not name that column.
\<close>

lemma db_insert_audit_event_stores_row:
  "db_insert_audit_event ''E0'' 1
     [(''tenant_id'', SqlText ''T1''), (''event_type'', SqlText ''comment_hidden''),
      (''entity_type'', SqlText ''comment''), (''entity_id'', SqlText ''C1''),
      (''payload'', SqlJsonb [(''action'', JStr ''hide'')]), (''payload_hash'', SqlText h)]
     db_comment_C1
   = Inr (db_comment_C1\<lparr>audit_events :=
        [\<lparr>payload_hash = h, previous_event_hash = None, event_id = ''E0'',
          event_tenant_id = ''T1'', event_type = ''comment_hidden'', entity_type = ''comment'',
          entity_id = ''C1'', payload = [(''action'', JStr ''hide'')],
          event_created_at = 1\<rparr>]\<rparr>)"
  by (simp add: db_insert_audit_event_def audit_events_columns_def audit_events_not_null_def
      text_or_def Let_def db_comment_C1_def db_poll_P1_def db_empty_def)

lemma requireModerator_rejects_issued_tokens:
  "req_role (generateAccessToken userId tenantId r) \<noteq> ADMIN \<and>
   req_role (generateAccessToken userId tenantId r) \<noteq> MODERATOR"
  by (cases r) (simp_all add: generateAccessToken_def)

lemma hideComment_keeps_audit_log:
  "audit_events (snd (hideComment H now newId user commentId s)) = audit_events s"
  by (simp add: hideComment_def Let_def comment_hidden_insert_undefined_column)

lemma hideComment_fails: "fst (hideComment H now newId user commentId s) \<noteq> Inr ()"
  by (simp add: hideComment_def Let_def comment_hidden_insert_undefined_column)

text \<open>
  C2 (the code departs from the claim): the repository's one statement that inserts an
  audit event never stores one. A caller whose access token was issued by register or
  login (role citizen, elected_official or administration) is refused by
  requireModerator, which compares the role with 'admin' and 'moderator'. For a caller
  with the role 'moderator' the route hides the comment and then its INSERT raises
  undefined_column for \<^verbatim>\<open>user_id\<close>: the statement names \<^verbatim>\<open>user_id\<close>,
  \<^verbatim>\<open>target_type\<close> and \<^verbatim>\<open>target_id\<close>, which the table does not have, and it does
  not name \<^verbatim>\<open>previous_event_hash\<close>; the hash it passes is not the hash of the payload
  it passes. Whatever the request and the store, the route does not succeed and leaves
  the audit log as it was, and the verification of the still empty log of tenant T1
  answers valid with 0 events checked.
\<close>

theorem hideComment_stores_no_audit_event:
  "hideComment H now newId (generateAccessToken userId tenantId r) commentId s
     = (Inl (ForbiddenError ''Moderator access required''), s)
   \<and> hideComment H 1 ''E0'' moderator_M1 ''C1'' db_comment_C1
     = (Inl (DatabaseError (UndefinedColumn ''user_id'')),
        db_comment_C1\<lparr>comments :=
          [\<lparr>comment_id = ''C1'', comment_poll_id = ''P1'', is_hidden = True\<rparr>]\<rparr>)
   \<and> map fst (comment_hidden_insert H user commentId)
     = [''tenant_id'', ''user_id'', ''event_type'', ''target_type'', ''target_id'',
        ''payload'', ''payload_hash'']
   \<and> sql_text (map_of (comment_hidden_insert symbolic_sha256 moderator_M1 ''C1'')
        ''payload_hash'')
     \<noteq> Some (generateHash symbolic_sha256
          (JObj (sql_jsonb (map_of (comment_hidden_insert symbolic_sha256 moderator_M1 ''C1'')
             ''payload''))))
   \<and> fst (hideComment H now newId user commentId s) \<noteq> Inr ()
   \<and> audit_events (snd (hideComment H now newId user commentId s)) = audit_events s
   \<and> audit_events db_comment_C1 = []
   \<and> audit_verify H ''T1'' None
        (snd (hideComment H 1 ''E0'' moderator_M1 ''C1'' db_comment_C1)) = (True, 0)"
proof -
  have forbidden: "hideComment H now newId (generateAccessToken userId tenantId r) commentId s
     = (Inl (ForbiddenError ''Moderator access required''), s)"
    using requireModerator_rejects_issued_tokens [of userId tenantId r]
    by (simp add: hideComment_def)
  have raised: "hideComment H 1 ''E0'' moderator_M1 ''C1'' db_comment_C1
     = (Inl (DatabaseError (UndefinedColumn ''user_id'')),
        db_comment_C1\<lparr>comments :=
          [\<lparr>comment_id = ''C1'', comment_poll_id = ''P1'', is_hidden = True\<rparr>]\<rparr>)"
    by (simp add: hide_eval comment_hidden_insert_undefined_column)
  have columns: "map fst (comment_hidden_insert H user commentId)
     = [''tenant_id'', ''user_id'', ''event_type'', ''target_type'', ''target_id'',
        ''payload'', ''payload_hash'']"
    by (simp add: comment_hidden_insert_def)
  have hash: "sql_text (map_of (comment_hidden_insert symbolic_sha256 moderator_M1 ''C1'')
        ''payload_hash'')
     \<noteq> Some (generateHash symbolic_sha256
          (JObj (sql_jsonb (map_of (comment_hidden_insert symbolic_sha256 moderator_M1 ''C1'')
             ''payload''))))"
    by (simp add: comment_hidden_insert_def moderator_M1_def generateHash_def
        JSON_stringify_def members_def symbolic_sha256_def json_quote_def quote_char_def
        List.map_filter_def)
  have empty: "audit_events db_comment_C1 = []"
    by (simp add: db_comment_C1_def db_poll_P1_def db_empty_def)
  have verify: "audit_verify H ''T1'' None
        (snd (hideComment H 1 ''E0'' moderator_M1 ''C1'' db_comment_C1)) = (True, 0)"
    by (simp add: audit_verify_def tenant_events_def hideComment_keeps_audit_log empty)
  show ?thesis
    using forbidden raised columns hash hideComment_fails hideComment_keeps_audit_log
      empty verify
    by blast
qed

text \<open>
  C3 (the code departs from the claim): the two verifiers apply different link rules. A
  pair of events linked by generateChainHash satisfies the specification's rule and is
  accepted by the crypto package's verifyHashChain, while the standalone verifier reports
  a chain break at index 1; a pair linked by the previous event's payload hash is accepted
  by the standalone verifier although it violates the rule, and verifyHashChain rejects
  it.
\<close>

theorem cli_link_check_compares_payload_hash:
  "spec_link_valid symbolic_sha256
      [chained_event0 symbolic_sha256, chained_event1 symbolic_sha256] 1
   \<and> verifyHashChain symbolic_sha256
      [chained_event0 symbolic_sha256, chained_event1 symbolic_sha256]
   \<and> \<not> valid (cli_verifyHashChain symbolic_sha256
      [chained_event0 symbolic_sha256, chained_event1 symbolic_sha256])
   \<and> errors (cli_verifyHashChain symbolic_sha256
      [chained_event0 symbolic_sha256, chained_event1 symbolic_sha256])
     = [ChainBreak 1 ''E1'' (previous_event_hash (chained_event1 symbolic_sha256))
          (payload_hash (chained_event0 symbolic_sha256))]
   \<and> valid (cli_verifyHashChain symbolic_sha256
      [payload_linked_event symbolic_sha256 0, payload_linked_event symbolic_sha256 1])
   \<and> \<not> spec_link_valid symbolic_sha256
      [payload_linked_event symbolic_sha256 0, payload_linked_event symbolic_sha256 1] 1
   \<and> \<not> verifyHashChain symbolic_sha256
      [payload_linked_event symbolic_sha256 0, payload_linked_event symbolic_sha256 1]"
proof -
  have a: "spec_link_valid symbolic_sha256
      [chained_event0 symbolic_sha256, chained_event1 symbolic_sha256] 1"
    by (simp add: spec_link_valid_def chain_eval)
  have b: "verifyHashChain symbolic_sha256
      [chained_event0 symbolic_sha256, chained_event1 symbolic_sha256]"
    by (simp add: verifyHashChain_iff spec_link_valid_def chain_eval less_Suc_eq)
  have c: "errors (cli_verifyHashChain symbolic_sha256
      [chained_event0 symbolic_sha256, chained_event1 symbolic_sha256])
     = [ChainBreak 1 ''E1'' (previous_event_hash (chained_event1 symbolic_sha256))
          (payload_hash (chained_event0 symbolic_sha256))]"
    by (simp add: cli_errors cli_event_errors_def upt_conv_Cons chain_eval
        generateChainHash_def symbolic_sha256_def)
  then have d: "\<not> valid (cli_verifyHashChain symbolic_sha256
      [chained_event0 symbolic_sha256, chained_event1 symbolic_sha256])"
    by (simp add: cli_valid)
  have e: "valid (cli_verifyHashChain symbolic_sha256
      [payload_linked_event symbolic_sha256 0, payload_linked_event symbolic_sha256 1])"
    by (simp add: cli_valid_iff less_Suc_eq chain_eval nat_digits.simps)
  have f: "\<not> spec_link_valid symbolic_sha256
      [payload_linked_event symbolic_sha256 0, payload_linked_event symbolic_sha256 1] 1"
    by (simp add: spec_link_valid_def chain_eval generateChainHash_def symbolic_sha256_def)
  then have g: "\<not> verifyHashChain symbolic_sha256
      [payload_linked_event symbolic_sha256 0, payload_linked_event symbolic_sha256 1]"
    using verifyHashChain_link_failure
            [of 1 "[payload_linked_event symbolic_sha256 0, payload_linked_event symbolic_sha256 1]"
               symbolic_sha256]
    by simp
  show ?thesis using a b c d e f g by blast
qed

lemma verifyHashChain_ignores_payload:
  "verifyHashChain H (events[i := (events ! i)\<lparr>payload := p'\<rparr>]) = verifyHashChain H events"
proof -
  let ?ev = "events[i := (events ! i)\<lparr>payload := p'\<rparr>]"
  have ph: "payload_hash (?ev ! j) = payload_hash (events ! j)" if "j < length events" for j
    using that by (cases "j = i") simp_all
  have pe: "previous_event_hash (?ev ! j) = previous_event_hash (events ! j)"
    if "j < length events" for j
    using that by (cases "j = i") simp_all
  have "spec_link_valid H ?ev j = spec_link_valid H events j" if "j < length events" for j
  proof (cases "j = 0")
    case True
    then show ?thesis using that pe [of 0] by (simp add: spec_link_valid_def)
  next
    case False
    then have "j - 1 < length events" using that by simp
    then show ?thesis
      using False that pe [of j] pe [of "j - 1"] ph [of "j - 1"]
      by (simp add: spec_link_valid_def)
  qed
  then show ?thesis by (simp add: verifyHashChain_iff)
qed

text \<open>
  The replacer array \<^verbatim>\<open>Object.keys(payload).sort()\<close> of computePayloadHash is an
  allowlist for the keys of nested objects too: the key \<^verbatim>\<open>optionId\<close> of the nested
  object is not a top-level key, so the nested object is rendered as \<^verbatim>\<open>{}\<close> whatever
  it holds.
\<close>

lemma computePayloadHash_vote_payload:
  "computePayloadHash H (vote_payload k a) = computePayloadHash H (vote_payload k b)"
  by (simp add: computePayloadHash_def vote_payload_def Object_keys_def members_def
      List.map_filter_def json_quote_def quote_char_def)

text \<open>
  C4 (the code departs from the claim): the standalone verifier accepts the five events
  of \<open>nested_chain\<close>; replacing the payload of event 2 in place, the option O1 of its
  nested vote by O2, with no hash recomputed, gives a different payload and a different
  JSON text, but the verifier recomputes the same payload hash, still answers valid and
  reports no error: nothing identifies index 2. This holds for every hash function \<open>H\<close>.
  The crypto package's verifyHashChain, which reads no payload, gives the same verdict
  before and after.
\<close>

theorem cli_verifyHashChain_misses_nested_payload_tampering:
  "length (nested_chain H) = 5
   \<and> valid (cli_verifyHashChain H (nested_chain H))
   \<and> payload (nested_chain H ! 2) = vote_payload 2 ''O1''
   \<and> vote_payload 2 ''O2'' \<noteq> vote_payload 2 ''O1''
   \<and> JSON_stringify (JObj (vote_payload 2 ''O2'')) \<noteq> JSON_stringify (JObj (vote_payload 2 ''O1''))
   \<and> computePayloadHash H (vote_payload 2 ''O2'') = computePayloadHash H (vote_payload 2 ''O1'')
   \<and> valid (cli_verifyHashChain H
        ((nested_chain H)[2 := (nested_chain H ! 2)\<lparr>payload := vote_payload 2 ''O2''\<rparr>]))
   \<and> errors (cli_verifyHashChain H
        ((nested_chain H)[2 := (nested_chain H ! 2)\<lparr>payload := vote_payload 2 ''O2''\<rparr>])) = []
   \<and> verifyHashChain H
        ((nested_chain H)[2 := (nested_chain H ! 2)\<lparr>payload := vote_payload 2 ''O2''\<rparr>])
     = verifyHashChain H (nested_chain H)"
proof -
  let ?ev = "(nested_chain H)[2 := (nested_chain H ! 2)\<lparr>payload := vote_payload 2 ''O2''\<rparr>]"
  have len: "length (nested_chain H) = 5"
    by (simp add: nested_chain_def)
  have before: "valid (cli_verifyHashChain H (nested_chain H))"
    by (simp add: cli_valid_iff nested_chain_def nested_event_def chain_event_def less_Suc_eq)
  have pl: "payload (nested_chain H ! 2) = vote_payload 2 ''O1''"
    by (simp add: nested_chain_def nested_event_def chain_event_def)
  have differ: "vote_payload 2 ''O2'' \<noteq> vote_payload 2 ''O1''"
    by (simp add: vote_payload_def)
  have text_differ: "JSON_stringify (JObj (vote_payload 2 ''O2'')) \<noteq>
      JSON_stringify (JObj (vote_payload 2 ''O1''))"
    by (simp add: vote_payload_def JSON_stringify_def members_def List.map_filter_def
        json_quote_def quote_char_def)
  have same: "computePayloadHash H (vote_payload 2 ''O2'') =
      computePayloadHash H (vote_payload 2 ''O1'')"
    by (rule computePayloadHash_vote_payload)
  have after: "valid (cli_verifyHashChain H ?ev)"
    by (simp add: cli_valid_iff nested_chain_def nested_event_def chain_event_def less_Suc_eq
        computePayloadHash_vote_payload [of H 2 "''O2''" "''O1''"])
  then have none: "errors (cli_verifyHashChain H ?ev) = []"
    by (simp add: cli_valid)
  have crypto: "verifyHashChain H ?ev = verifyHashChain H (nested_chain H)"
    by (rule verifyHashChain_ignores_payload)
  show ?thesis
    using len before pl differ text_differ same after none crypto by blast
qed

section \<open>Properties of idea voting\<close>

lemma find_Some_holds: "find P xs = Some x \<Longrightarrow> P x"
  by (induction xs) (auto split: if_splits)

lemma find_map_same_id:
  assumes "\<And>x. idea_id (f x) = idea_id x"
  shows "find (\<lambda>i. idea_id i = k) (map f xs) = map_option f (find (\<lambda>i. idea_id i = k) xs)"
  by (induction xs) (simp_all add: assms)

lemma idea_id_add_to_counter [simp]: "idea_id (add_to_counter t d i) = idea_id i"
  by (cases t) (simp_all add: add_to_counter_def)






lemma votes_bump [simp]:
  "consultation_idea_votes (db_bump_idea ideaId t d s) = consultation_idea_votes s"
  by (simp add: db_bump_idea_def)

lemma votes_flip [simp]:
  "consultation_idea_votes (db_flip_idea ideaId oldT newT s) = consultation_idea_votes s"
  by (simp add: db_flip_idea_def)

lemma idea_votes_of_bump [simp]:
  "idea_votes_of i u (db_bump_idea ideaId t d s) = idea_votes_of i u s"
  by (simp add: idea_votes_of_def)

lemma idea_votes_of_flip [simp]:
  "idea_votes_of i u (db_flip_idea ideaId oldT newT s) = idea_votes_of i u s"
  by (simp add: idea_votes_of_def)

lemma idea_votes_unique_bump [simp]:
  "idea_votes_unique (db_bump_idea ideaId t d s) = idea_votes_unique s"
  by (simp add: idea_votes_unique_def)

lemma idea_votes_unique_flip [simp]:
  "idea_votes_unique (db_flip_idea ideaId oldT newT s) = idea_votes_unique s"
  by (simp add: idea_votes_unique_def)

lemma idea_counter_delete_vote [simp]:
  "idea_counter t i (db_delete_idea_vote vid s) = idea_counter t i s"
  by (simp add: idea_counter_def db_delete_idea_vote_def)

lemma idea_counter_set_vote_type [simp]:
  "idea_counter t i (db_set_idea_vote_type vid vt s) = idea_counter t i s"
  by (simp add: idea_counter_def db_set_idea_vote_type_def)









section \<open>Properties of the stage transition\<close>

lemma transitionStage_keeps_audit_log:
  "audit_events (snd (transitionStage userId pollId nextStage s)) = audit_events s"
  by (simp add: transitionStage_def Let_def db_set_stage_def db_reject_submitted_def
      db_shortlist_top_def db_set_poll_options_def split: list.splits)

lemma ideas_set_stage [simp]:
  "consultation_ideas (db_set_stage pollId n s) = consultation_ideas s"
  by (simp add: db_set_stage_def)

lemma poll_ideas_set_stage [simp]:
  "poll_ideas P (db_set_stage pollId n s) = poll_ideas P s"
  by (simp add: poll_ideas_def)

lemma poll_ideas_after_shortlisting:
  assumes "\<forall>i \<in> set (poll_ideas P s). idea_status i = submitted"
  shows "poll_ideas P (db_reject_submitted P (db_shortlist_top P K s)) =
           map (restatus (top_idea_ids P K s)) (poll_ideas P s)"
proof -
  let ?T = "top_idea_ids P K s"
  let ?f = "\<lambda>i. if idea_id i \<in> set ?T then i\<lparr>idea_status := shortlisted\<rparr> else i"
  let ?g = "\<lambda>i. if idea_poll_id i = P \<and> idea_status i = submitted
                 then i\<lparr>idea_status := rejected\<rparr> else i"
  have ideas: "consultation_ideas (db_reject_submitted P (db_shortlist_top P K s)) =
                 map (\<lambda>i. ?g (?f i)) (consultation_ideas s)"
    by (simp add: db_reject_submitted_def db_shortlist_top_def)
  have pid: "idea_poll_id (?g (?f i)) = idea_poll_id i" for i by simp
  have "poll_ideas P (db_reject_submitted P (db_shortlist_top P K s)) =
          map (\<lambda>i. ?g (?f i)) (poll_ideas P s)"
    unfolding poll_ideas_def ideas filter_map o_def pid ..
  also have "\<dots> = map (restatus ?T) (poll_ideas P s)"
  proof (rule map_cong [OF refl])
    fix i assume "i \<in> set (poll_ideas P s)"
    then have "idea_status i = submitted" and "idea_poll_id i = P"
      using assms by (auto simp: poll_ideas_def)
    then show "?g (?f i) = restatus ?T i"
      by (simp add: restatus_def)
  qed
  finally show ?thesis .
qed

lemma top_idea_ids_member:
  assumes "distinct (map idea_id (consultation_ideas s))" and "i \<in> set (poll_ideas P s)"
  shows "idea_id i \<in> set (top_idea_ids P K s) \<longleftrightarrow>
           i \<in> set (take K (sort_key rank_key (poll_ideas P s)))"
proof -
  let ?xs = "poll_ideas P s"
  let ?top = "take K (sort_key rank_key ?xs)"
  have "distinct (map idea_id ?xs)"
    unfolding poll_ideas_def using assms(1) by (rule distinct_map_filter)
  then have inj: "inj_on idea_id (set ?xs)" by (simp add: distinct_map)
  have sub: "set ?top \<subseteq> set ?xs"
    using set_take_subset [of K "sort_key rank_key ?xs"] by simp
  show ?thesis
  proof
    assume "idea_id i \<in> set (top_idea_ids P K s)"
    then obtain j where j: "j \<in> set ?top" "idea_id j = idea_id i"
      by (auto simp: top_idea_ids_def)
    then have "j = i" using inj sub assms(2) by (meson inj_onD subsetD)
    then show "i \<in> set ?top" using j by simp
  next
    assume "i \<in> set ?top"
    then show "idea_id i \<in> set (top_idea_ids P K s)" by (simp add: top_idea_ids_def)
  qed
qed

lemma top_count:
  assumes "distinct (map idea_id (consultation_ideas s))"
  shows "length (filter (\<lambda>i. idea_id i \<in> set (top_idea_ids P K s)) (poll_ideas P s)) =
           min K (length (poll_ideas P s))"
proof -
  let ?xs = "poll_ideas P s"
  let ?top = "take K (sort_key rank_key ?xs)"
  have dm: "distinct (map idea_id ?xs)"
    unfolding poll_ideas_def using assms by (rule distinct_map_filter)
  then have dx: "distinct ?xs" by (simp add: distinct_map)
  then have dt: "distinct ?top" by simp
  have sub: "set ?top \<subseteq> set ?xs"
    using set_take_subset [of K "sort_key rank_key ?xs"] by simp
  have "filter (\<lambda>i. idea_id i \<in> set (top_idea_ids P K s)) ?xs = filter (\<lambda>i. i \<in> set ?top) ?xs"
    by (rule filter_cong [OF refl]) (simp add: top_idea_ids_member [OF assms])
  then have "length (filter (\<lambda>i. idea_id i \<in> set (top_idea_ids P K s)) ?xs) =
             card ({i. i \<in> set ?top} \<inter> set ?xs)"
    using dx by (simp add: distinct_length_filter)
  also have "{i. i \<in> set ?top} \<inter> set ?xs = set ?top" using sub by auto
  also have "card (set ?top) = length ?top" using dt by (rule distinct_card)
  finally show ?thesis by simp
qed

lemma top_ranks_before_rest:
  assumes "a \<in> set (take K (sort_key rank_key xs))"
    and "b \<in> set xs" and "b \<notin> set (take K (sort_key rank_key xs))"
  shows "spec_ranks_before a b"
proof -
  let ?ys = "sort_key rank_key xs"
  have "sorted (map rank_key (take K ?ys @ drop K ?ys))" by (simp add: sorted_sort_key)
  then have le: "\<forall>x \<in> set (take K ?ys). \<forall>y \<in> set (drop K ?ys). rank_key x \<le> rank_key y"
    unfolding map_append sorted_append by auto
  have "b \<in> set ?ys" using assms(2) by simp
  then have "b \<in> set (take K ?ys) \<union> set (drop K ?ys)"
    by (metis append_take_drop_id set_append)
  then have "b \<in> set (drop K ?ys)" using assms(3) by blast
  then have "rank_key a \<le> rank_key b" using le assms(1) by blast
  then show ?thesis
    unfolding rank_key_def spec_ranks_before_def less_eq_prod_def by auto
qed

lemma restatus_simps [simp]:
  "idea_id (restatus T i) = idea_id i"
  "idea_score (restatus T i) = idea_score i"
  "idea_created_at (restatus T i) = idea_created_at i"
  "idea_status (restatus T i) = (if idea_id i \<in> set T then shortlisted else rejected)"
  by (simp_all add: restatus_def idea_score_def)

lemma transitionStage_to_shortlist:
  assumes "filter (\<lambda>p. poll_id p = pollId) (polls s) = poll # ps"
    and "filter (\<lambda>u. user_id u = userId) (users s) = u # us"
    and "creator_id poll = userId \<or> role u = elected_official \<or> role u = administration"
    and "filter (\<lambda>st. stage_poll_id st = pollId) (consultation_stages s) = st # sts"
    and "current_stage st = idea_collection"
  shows "transitionStage userId pollId shortlist_selection s =
           (if length (poll_ideas pollId s) < min_ideas_for_stage_2 st
            then (Inl (BadRequestError
                         (need_ideas_message (min_ideas_for_stage_2 st)
                            (length (poll_ideas pollId s)))), s)
            else (Inr shortlist_selection,
                  db_set_stage pollId shortlist_selection
                    (db_reject_submitted pollId
                       (db_shortlist_top pollId (shortlist_size st) s))))"
  using assms(3) unfolding transitionStage_def assms(1,2,4) Let_def
  by (simp add: assms(5))

lemmas consultation_eval = db_consultation_def db_consultation_strict_def db_empty_def
  poll_ideas_def

lemma top_ids_consultation: "top_idea_ids ''P1'' 2 db_consultation = [''I2'', ''I4'']"
  by (simp add: top_idea_ids_def consultation_eval rank_key_def idea_score_def
      less_eq_prod_def less_prod_def)

lemma transition_consultation_ideas:
  "map (\<lambda>i. (idea_id i, idea_status i))
     (poll_ideas ''P1'' (snd (transitionStage ''U0'' ''P1'' shortlist_selection db_consultation)))
   = [(''I1'', rejected), (''I2'', shortlisted), (''I3'', rejected), (''I4'', shortlisted)]"
  by (simp add: transitionStage_def Let_def db_set_stage_def db_reject_submitted_def
      db_shortlist_top_def top_idea_ids_def consultation_eval rank_key_def idea_score_def
      less_eq_prod_def less_prod_def)

lemma transition_consultation_stage:
  "map current_stage
     (consultation_stages
        (snd (transitionStage ''U0'' ''P1'' shortlist_selection db_consultation)))
   = [shortlist_selection]"
  by (simp add: transitionStage_def Let_def db_set_stage_def db_reject_submitted_def
      db_shortlist_top_def consultation_eval)

lemma need_ideas_message_5_4:
  "need_ideas_message 5 4 = ''Cannot transition to Stage 2: Need at least 5 ideas (currently 4)''"
  by (simp add: need_ideas_message_def nat_digits.simps)

lemma stages_after_transition:
  "consultation_stages
     (db_set_stage pollId nextStage (db_reject_submitted pollId (db_shortlist_top pollId n s)))
   = map (\<lambda>st. if stage_poll_id st = pollId then st\<lparr>current_stage := nextStage\<rparr> else st)
       (consultation_stages s)"
  by (simp add: db_set_stage_def db_reject_submitted_def db_shortlist_top_def)

lemma set_stage_of_poll:
  "map current_stage
     (filter (\<lambda>st. stage_poll_id st = pollId)
        (map (\<lambda>st. if stage_poll_id st = pollId then st\<lparr>current_stage := nextStage\<rparr> else st)
           xs))
   = map (\<lambda>st. nextStage) (filter (\<lambda>st. stage_poll_id st = pollId) xs)"
  by (induction xs) simp_all

lemma set_stage_of_other_polls:
  "filter (\<lambda>st. stage_poll_id st \<noteq> pollId)
     (map (\<lambda>st. if stage_poll_id st = pollId then st\<lparr>current_stage := nextStage\<rparr> else st) xs)
   = filter (\<lambda>st. stage_poll_id st \<noteq> pollId) xs"
  by (induction xs) simp_all

lemma transition_wide:
  "fst (transitionStage ''U0'' ''P1'' shortlist_selection db_consultation_wide)
     = Inr shortlist_selection"
  "length (filter (\<lambda>i. idea_status i = shortlisted)
     (poll_ideas ''P1''
        (snd (transitionStage ''U0'' ''P1'' shortlist_selection db_consultation_wide)))) = 4"
  by (simp_all add: transitionStage_def Let_def db_set_stage_def db_reject_submitted_def
      db_shortlist_top_def top_idea_ids_def consultation_eval db_consultation_wide_def
      rank_key_def idea_score_def less_eq_prod_def less_prod_def)

text \<open>
  C7 (as stated, refuted): with threshold 3, shortlist size 5 and four submitted ideas the
  transition succeeds and shortlists the four ideas, not exactly shortlistSize = 5 of
  them.
\<close>

theorem transitionStage_shortlists_fewer_than_shortlist_size:
  "map (\<lambda>st. (min_ideas_for_stage_2 st, shortlist_size st))
       (consultation_stages db_consultation_wide) = [(3, 5)]
   \<and> map idea_status (poll_ideas ''P1'' db_consultation_wide)
       = [submitted, submitted, submitted, submitted]
   \<and> fst (transitionStage ''U0'' ''P1'' shortlist_selection db_consultation_wide)
       = Inr shortlist_selection
   \<and> length (filter (\<lambda>i. idea_status i = shortlisted)
        (poll_ideas ''P1''
           (snd (transitionStage ''U0'' ''P1'' shortlist_selection db_consultation_wide)))) = 4
   \<and> length (filter (\<lambda>i. idea_status i = shortlisted)
        (poll_ideas ''P1''
           (snd (transitionStage ''U0'' ''P1'' shortlist_selection db_consultation_wide)))) \<noteq> 5"
proof -
  have pre: "map (\<lambda>st. (min_ideas_for_stage_2 st, shortlist_size st))
       (consultation_stages db_consultation_wide) = [(3, 5)]
     \<and> map idea_status (poll_ideas ''P1'' db_consultation_wide)
       = [submitted, submitted, submitted, submitted]"
    by (simp add: consultation_eval db_consultation_wide_def)
  show ?thesis using pre transition_wide by simp
qed

text \<open>
  C7 (amended): for a consultation in stage idea_collection whose ideas all have status
  submitted (ids being unique), and a caller who is the poll's creator or an official, the
  transition to shortlist_selection fails with a BadRequestError whose message names the
  threshold and the current count whenever the count of the poll's ideas is below
  min_ideas_for_stage_2, leaving the store unchanged. When the count reaches the
  threshold it succeeds: the stage of the poll becomes shortlist_selection and the stage
  rows of other polls stay as they were, the poll keeps the same ideas, every one of them
  is shortlisted or rejected (none stays submitted), the number of shortlisted ideas is
  the smaller of the shortlist size and the count (exactly the shortlist size when there
  are at least that many ideas), and every shortlisted idea ranks before every rejected
  one by score descending, ties by earlier submission time.
\<close>

theorem transitionStage_shortlists_top_ideas:
  assumes poll: "filter (\<lambda>p. poll_id p = pollId) (polls s) = poll # ps"
    and user: "filter (\<lambda>u. user_id u = userId) (users s) = u # us"
    and auth: "creator_id poll = userId \<or> role u = elected_official \<or> role u = administration"
    and stage: "filter (\<lambda>st. stage_poll_id st = pollId) (consultation_stages s) = st # sts"
    and cur: "current_stage st = idea_collection"
    and ids: "distinct (map idea_id (consultation_ideas s))"
    and sub: "\<forall>i \<in> set (poll_ideas pollId s). idea_status i = submitted"
  shows "(length (poll_ideas pollId s) < min_ideas_for_stage_2 st \<longrightarrow>
            transitionStage userId pollId shortlist_selection s =
              (Inl (BadRequestError
                      (need_ideas_message (min_ideas_for_stage_2 st)
                         (length (poll_ideas pollId s)))), s))
     \<and> (min_ideas_for_stage_2 st \<le> length (poll_ideas pollId s) \<longrightarrow>
            fst (transitionStage userId pollId shortlist_selection s) = Inr shortlist_selection
          \<and> map current_stage
               (filter (\<lambda>st. stage_poll_id st = pollId)
                  (consultation_stages
                     (snd (transitionStage userId pollId shortlist_selection s))))
              = map (\<lambda>st. shortlist_selection) (st # sts)
          \<and> filter (\<lambda>st. stage_poll_id st \<noteq> pollId)
               (consultation_stages (snd (transitionStage userId pollId shortlist_selection s)))
              = filter (\<lambda>st. stage_poll_id st \<noteq> pollId) (consultation_stages s)
          \<and> map idea_id
               (poll_ideas pollId (snd (transitionStage userId pollId shortlist_selection s)))
              = map idea_id (poll_ideas pollId s)
          \<and> (\<forall>i \<in> set (poll_ideas pollId
                            (snd (transitionStage userId pollId shortlist_selection s))).
                idea_status i = shortlisted \<or> idea_status i = rejected)
          \<and> length (filter (\<lambda>i. idea_status i = shortlisted)
                       (poll_ideas pollId
                          (snd (transitionStage userId pollId shortlist_selection s))))
              = min (shortlist_size st) (length (poll_ideas pollId s))
          \<and> (\<forall>a \<in> set (poll_ideas pollId
                            (snd (transitionStage userId pollId shortlist_selection s))).
              \<forall>b \<in> set (poll_ideas pollId
                            (snd (transitionStage userId pollId shortlist_selection s))).
                idea_status a = shortlisted \<and> idea_status b = rejected \<longrightarrow>
                  spec_ranks_before a b))"
proof (intro conjI impI)
  note res = transitionStage_to_shortlist [OF poll user auth stage cur]
  assume "length (poll_ideas pollId s) < min_ideas_for_stage_2 st"
  then show "transitionStage userId pollId shortlist_selection s =
              (Inl (BadRequestError
                      (need_ideas_message (min_ideas_for_stage_2 st)
                         (length (poll_ideas pollId s)))), s)"
    by (simp add: res)
next
  let ?T = "top_idea_ids pollId (shortlist_size st) s"
  let ?xs = "poll_ideas pollId s"
  let ?s' = "snd (transitionStage userId pollId shortlist_selection s)"
  note res = transitionStage_to_shortlist [OF poll user auth stage cur]
  assume enough: "min_ideas_for_stage_2 st \<le> length (poll_ideas pollId s)"
  then have s': "?s' = db_set_stage pollId shortlist_selection
                         (db_reject_submitted pollId
                            (db_shortlist_top pollId (shortlist_size st) s))"
    by (simp add: res)
  have after: "poll_ideas pollId ?s' = map (restatus ?T) ?xs"
    unfolding s' by (simp add: poll_ideas_after_shortlisting [OF sub])
  show "fst (transitionStage userId pollId shortlist_selection s) = Inr shortlist_selection"
    using enough by (simp add: res)
  have "map current_stage (filter (\<lambda>st. stage_poll_id st = pollId) (consultation_stages ?s'))
      = map (\<lambda>st. shortlist_selection)
          (filter (\<lambda>st. stage_poll_id st = pollId) (consultation_stages s))"
    unfolding s' stages_after_transition by (rule set_stage_of_poll)
  then show "map current_stage
      (filter (\<lambda>st. stage_poll_id st = pollId) (consultation_stages ?s'))
      = map (\<lambda>st. shortlist_selection) (st # sts)"
    unfolding stage .
  show "filter (\<lambda>st. stage_poll_id st \<noteq> pollId) (consultation_stages ?s')
      = filter (\<lambda>st. stage_poll_id st \<noteq> pollId) (consultation_stages s)"
    unfolding s' stages_after_transition by (rule set_stage_of_other_polls)
  show "map idea_id (poll_ideas pollId ?s') = map idea_id ?xs"
    unfolding after by simp
  show "\<forall>i \<in> set (poll_ideas pollId ?s'). idea_status i = shortlisted \<or> idea_status i = rejected"
    unfolding after by auto
  have "filter (\<lambda>i. idea_status i = shortlisted) (map (restatus ?T) ?xs) =
          map (restatus ?T) (filter (\<lambda>i. idea_id i \<in> set ?T) ?xs)"
    by (simp add: filter_map o_def)
  then show "length (filter (\<lambda>i. idea_status i = shortlisted) (poll_ideas pollId ?s')) =
          min (shortlist_size st) (length ?xs)"
    unfolding after by (simp add: top_count [OF ids])
  show "\<forall>a \<in> set (poll_ideas pollId ?s'). \<forall>b \<in> set (poll_ideas pollId ?s').
          idea_status a = shortlisted \<and> idea_status b = rejected \<longrightarrow> spec_ranks_before a b"
  proof (intro ballI impI)
    fix a b
    assume a: "a \<in> set (poll_ideas pollId ?s')" and b: "b \<in> set (poll_ideas pollId ?s')"
      and st: "idea_status a = shortlisted \<and> idea_status b = rejected"
    obtain a0 where a0: "a0 \<in> set ?xs" "a = restatus ?T a0" using a unfolding after by auto
    obtain b0 where b0: "b0 \<in> set ?xs" "b = restatus ?T b0" using b unfolding after by auto
    have "idea_id a0 \<in> set ?T" using st a0(2) by (simp split: if_splits)
    then have ta: "a0 \<in> set (take (shortlist_size st) (sort_key rank_key ?xs))"
      using top_idea_ids_member [OF ids a0(1)] by simp
    have "idea_id b0 \<notin> set ?T" using st b0(2) by (simp split: if_splits)
    then have tb: "b0 \<notin> set (take (shortlist_size st) (sort_key rank_key ?xs))"
      using top_idea_ids_member [OF ids b0(1)] by simp
    have "spec_ranks_before a0 b0" using ta b0(1) tb by (rule top_ranks_before_rest)
    then show "spec_ranks_before a b"
      unfolding a0(2) b0(2) spec_ranks_before_def by simp
  qed
qed

theorem transitionStage_shortlists_top_ideas_witness:
  "transitionStage ''U0'' ''P1'' shortlist_selection db_consultation_strict =
     (Inl (BadRequestError
             ''Cannot transition to Stage 2: Need at least 5 ideas (currently 4)''),
      db_consultation_strict)
   \<and> fst (transitionStage ''U0'' ''P1'' shortlist_selection db_consultation)
       = Inr shortlist_selection
   \<and> map current_stage (consultation_stages db_consultation) = [idea_collection]
   \<and> map current_stage
        (filter (\<lambda>st. stage_poll_id st = ''P1'')
           (consultation_stages
              (snd (transitionStage ''U0'' ''P1'' shortlist_selection db_consultation))))
       = [shortlist_selection]
   \<and> map (\<lambda>i. (idea_id i, idea_status i))
        (poll_ideas ''P1''
           (snd (transitionStage ''U0'' ''P1'' shortlist_selection db_consultation)))
       = [(''I1'', rejected), (''I2'', shortlisted), (''I3'', rejected), (''I4'', shortlisted)]
   \<and> length (filter (\<lambda>i. idea_status i = shortlisted)
        (poll_ideas ''P1''
           (snd (transitionStage ''U0'' ''P1'' shortlist_selection db_consultation)))) = 2"
proof -
  let ?poll = "\<lparr>poll_id = ''P1'', poll_tenant_id = ''T1'', creator_id = ''U0'', status = active,
               start_time = None, end_time = None, options = []\<rparr>"
  let ?u = "\<lparr>user_id = ''U0'', role = citizen, secret_salt = ''S0''\<rparr>"
  let ?st = "\<lparr>stage_poll_id = ''P1'', current_stage = idea_collection,
         min_ideas_for_stage_2 = 3, shortlist_size = 2\<rparr>"
  let ?st5 = "\<lparr>stage_poll_id = ''P1'', current_stage = idea_collection,
         min_ideas_for_stage_2 = 5, shortlist_size = 2\<rparr>"
  have p: "filter (\<lambda>p. poll_id p = ''P1'') (polls db_consultation) = ?poll # []"
    and u: "filter (\<lambda>u. user_id u = ''U0'') (users db_consultation) = ?u # []"
    and a: "creator_id ?poll = ''U0'' \<or> role ?u = elected_official \<or> role ?u = administration"
    and st: "filter (\<lambda>st. stage_poll_id st = ''P1'') (consultation_stages db_consultation)
               = ?st # []"
    and c: "current_stage ?st = idea_collection"
    and d: "distinct (map idea_id (consultation_ideas db_consultation))"
    and sb: "\<forall>i \<in> set (poll_ideas ''P1'' db_consultation). idea_status i = submitted"
    and n: "length (poll_ideas ''P1'' db_consultation) = 4"
    and cs: "map current_stage (consultation_stages db_consultation) = [idea_collection]"
    by (simp_all add: consultation_eval)
  have p5: "filter (\<lambda>p. poll_id p = ''P1'') (polls db_consultation_strict) = ?poll # []"
    and u5: "filter (\<lambda>u. user_id u = ''U0'') (users db_consultation_strict) = ?u # []"
    and st5: "filter (\<lambda>st. stage_poll_id st = ''P1'')
                (consultation_stages db_consultation_strict) = ?st5 # []"
    and c5: "current_stage ?st5 = idea_collection"
    and d5: "distinct (map idea_id (consultation_ideas db_consultation_strict))"
    and sb5: "\<forall>i \<in> set (poll_ideas ''P1'' db_consultation_strict). idea_status i = submitted"
    and n5: "length (poll_ideas ''P1'' db_consultation_strict) = 4"
    by (simp_all add: consultation_eval)
  show ?thesis
    using transitionStage_shortlists_top_ideas [OF p u a st c d sb]
          transitionStage_shortlists_top_ideas [OF p5 u5 a st5 c5 d5 sb5]
          transition_consultation_ideas n n5 cs need_ideas_message_5_4
    by simp
qed

text \<open>
  C8 (the code departs from the claim): the transition of the example consultation
  succeeds and the audit log is empty before and after; for every caller, poll, requested
  stage and store, the route leaves the audit_events table as it was.
\<close>

theorem transitionStage_appends_no_audit_event:
  "fst (transitionStage ''U0'' ''P1'' shortlist_selection db_consultation)
     = Inr shortlist_selection
   \<and> audit_events db_consultation = []
   \<and> audit_events (snd (transitionStage ''U0'' ''P1'' shortlist_selection db_consultation)) = []
   \<and> audit_events (snd (transitionStage userId pollId nextStage s)) = audit_events s"
proof -
  have "fst (transitionStage ''U0'' ''P1'' shortlist_selection db_consultation)
     = Inr shortlist_selection"
    by (simp add: transitionStage_def Let_def consultation_eval)
  moreover have "audit_events db_consultation = []"
    by (simp add: consultation_eval)
  ultimately show ?thesis
    by (simp add: transitionStage_keeps_audit_log)
qed

end
